theory Spec2Isabelle
  imports Complex_Main "HOL-Library.AList" "HOL-Library.Sublist"
begin

section \<open>Badge sheet generator (generate\_badges.py): shallow embedding\<close>

text \<open>
  The program reads two CSV files, splits the participants into two streams and
  renders each stream as a PDF of QR badges laid out on a grid. The model below
  follows \<^verbatim>\<open>src/generate_badges.py\<close> function by function.

  Conventions of the embedding.
  \<^item> A Python \<^verbatim>\<open>dict\<close> whose iteration order matters is an association list with
    distinct keys, in insertion order; \<^verbatim>\<open>d[k] = v\<close> is \<^const>\<open>AList.update\<close>
    (replace in place, or append at the end), \<^verbatim>\<open>d.get(k)\<close> is \<^const>\<open>map_of\<close>.
  \<^item> A Python exception is a value of type \<open>error\<close>; a function that can raise
    returns \<open>error + 'a\<close>.
  \<^item> The lengths that Python holds as floats (points on the page) are exact
    rationals here: the model computes with the mathematical values and does not
    follow binary rounding.
  \<^item> A Python \<^verbatim>\<open>str\<close> is a \<open>string\<close>, one \<open>char\<close> for each code point below 256;
    case folding is that of the ASCII letters.
\<close>

datatype error = KeyError | AttributeError | ZeroDivisionError

type_synonym ('k, 'v) dict = "('k \<times> 'v) list"

subsection \<open>String helpers: \<^verbatim>\<open>str.strip\<close>, \<^verbatim>\<open>str.lower\<close>, \<^verbatim>\<open>in\<close>\<close>

text \<open>The characters that \<^verbatim>\<open>str.strip()\<close> removes, among the code points below 256:
  tab to carriage return, the four separators, the space, next line (133) and the
  no-break space (160).\<close>

definition is_space :: "char \<Rightarrow> bool" where
  "is_space c =
     (let n = (of_char c :: nat)
      in (9 \<le> n \<and> n \<le> 13) \<or> (28 \<le> n \<and> n \<le> 32) \<or> n = 133 \<or> n = 160)"

definition strip :: "string \<Rightarrow> string" where
  "strip s = rev (dropWhile is_space (rev (dropWhile is_space s)))"

definition lower_char :: "char \<Rightarrow> char" where
  "lower_char c =
     (case map_of (zip ''ABCDEFGHIJKLMNOPQRSTUVWXYZ'' ''abcdefghijklmnopqrstuvwxyz'') c of
        None \<Rightarrow> c
      | Some d \<Rightarrow> d)"

definition lower :: "string \<Rightarrow> string" where
  "lower s = map lower_char s"

text \<open>\<^verbatim>\<open>sub in s\<close> on strings: \<open>sub\<close> occurs in \<open>s\<close> as a contiguous block.\<close>

definition str_in :: "string \<Rightarrow> string \<Rightarrow> bool" where
  "str_in sub s = sublist sub s"

subsection \<open>Records read from the CSV files\<close>

text \<open>
  A row as \<^verbatim>\<open>csv.DictReader\<close> hands it over: a dictionary from column names to
  cells. A column that the header does not have is no key of the row. A column of
  the header that a short row does not reach is a key with the value \<^verbatim>\<open>None\<close>
  (the reader's \<^verbatim>\<open>restval\<close>), here the cell \<open>None\<close>.
\<close>

type_synonym row = "string \<rightharpoonup> string option"

record entity_info =
  entity_type :: string
  display_name :: string

record participant =
  participant_id :: string
  name :: string

text \<open>\<^verbatim>\<open>row[k].strip()\<close>: a missing key raises \<^verbatim>\<open>KeyError\<close>, a \<^verbatim>\<open>None\<close> cell has no
  \<^verbatim>\<open>strip\<close>.\<close>

definition row_item :: "row \<Rightarrow> string \<Rightarrow> error + string" where
  "row_item r k =
     (case r k of
        None \<Rightarrow> Inl KeyError
      | Some None \<Rightarrow> Inl AttributeError
      | Some (Some s) \<Rightarrow> Inr (strip s))"

text \<open>\<^verbatim>\<open>row.get(k, '').strip()\<close>: the default only stands in for a missing key.\<close>

definition row_get :: "row \<Rightarrow> string \<Rightarrow> error + string" where
  "row_get r k =
     (case r k of
        None \<Rightarrow> Inr (strip [])
      | Some None \<Rightarrow> Inl AttributeError
      | Some (Some s) \<Rightarrow> Inr (strip s))"

text \<open>The specification's reading of a field, to compare the loaders with: the
  trimmed text of the cell, and the empty string for a field that is absent.\<close>

definition field_or_empty :: "row \<Rightarrow> string \<Rightarrow> string" where
  "field_or_empty r k = (case r k of Some (Some s) \<Rightarrow> strip s | _ \<Rightarrow> [])"

text \<open>The body of the loop of \<^verbatim>\<open>load_entities\<close>, for one row.\<close>

definition entity_of_row :: "row \<Rightarrow> error + string \<times> entity_info" where
  "entity_of_row r =
     (case row_item r ''entity_id'' of Inl e \<Rightarrow> Inl e | Inr entity_id \<Rightarrow>
     (case row_get r ''entity_type'' of Inl e \<Rightarrow> Inl e | Inr etype \<Rightarrow>
     (case row_get r ''team_name'' of Inl e \<Rightarrow> Inl e | Inr team_name \<Rightarrow>
     (case row_get r ''institution_name'' of Inl e \<Rightarrow> Inl e | Inr institution_name \<Rightarrow>
        Inr (entity_id,
             \<lparr>entity_type = etype,
              display_name = (if team_name \<noteq> [] then team_name else institution_name)\<rparr>)))))"

fun load_entities_loop ::
  "row list \<Rightarrow> (string, entity_info) dict \<Rightarrow> error + (string, entity_info) dict" where
  "load_entities_loop [] entities = Inr entities"
| "load_entities_loop (r # rs) entities =
     (case entity_of_row r of
        Inl e \<Rightarrow> Inl e
      | Inr (entity_id, info) \<Rightarrow> load_entities_loop rs (AList.update entity_id info entities))"

definition load_entities :: "row list \<Rightarrow> error + (string, entity_info) dict" where
  "load_entities rs = load_entities_loop rs []"

text \<open>The body of the loop of \<^verbatim>\<open>load_participants\<close>, for one row.\<close>

definition participant_of_row :: "row \<Rightarrow> error + string \<times> participant" where
  "participant_of_row r =
     (case row_item r ''entity_id'' of Inl e \<Rightarrow> Inl e | Inr entity_id \<Rightarrow>
     (case row_get r ''participant_id'' of Inl e \<Rightarrow> Inl e | Inr pid \<Rightarrow>
     (case row_get r ''name'' of Inl e \<Rightarrow> Inl e | Inr nm \<Rightarrow>
        Inr (entity_id, \<lparr>participant_id = pid, name = nm\<rparr>))))"

text \<open>\<^verbatim>\<open>participants_by_entity[entity_id].append(participant)\<close> on a
  \<^verbatim>\<open>defaultdict(list)\<close>: a new key enters at the end with the empty list.\<close>

definition append_to :: "string \<Rightarrow> participant \<Rightarrow> (string, participant list) dict
    \<Rightarrow> (string, participant list) dict" where
  "append_to k p d =
     AList.update k ((case map_of d k of None \<Rightarrow> [] | Some ps \<Rightarrow> ps) @ [p]) d"

fun load_participants_loop ::
  "row list \<Rightarrow> (string, participant list) dict \<Rightarrow> error + (string, participant list) dict" where
  "load_participants_loop [] d = Inr d"
| "load_participants_loop (r # rs) d =
     (case participant_of_row r of
        Inl e \<Rightarrow> Inl e
      | Inr (entity_id, p) \<Rightarrow> load_participants_loop rs (append_to entity_id p d))"

definition load_participants :: "row list \<Rightarrow> error + (string, participant list) dict" where
  "load_participants rs = load_participants_loop rs []"

subsection \<open>Grid geometry\<close>

text \<open>
  \<^verbatim>\<open>generate_badges_pdf\<close> fixes the page, the margin and the badge size as local
  constants and derives the grid from them (lines 115 to 140). The constants
  are the fields of \<open>config\<close>, so that the derivation is a function; the values
  of the source are \<open>default_config\<close>.
\<close>

record config =
  page_width :: rat
  page_height :: rat
  margin :: rat
  qr_size :: rat
  text_space :: rat
  footer_height :: rat

text \<open>\<^verbatim>\<open>reportlab.lib.units.mm\<close> (72 points to the inch, 25.4 mm to the inch) and
  \<^verbatim>\<open>reportlab.lib.pagesizes.A4\<close>.\<close>

definition mm :: rat where
  "mm = 360 / 127"

definition A4 :: "rat \<times> rat" where
  "A4 = (210 * mm, 297 * mm)"

definition default_config :: config where
  "default_config =
     \<lparr>page_width = fst A4, page_height = snd A4, margin = 10 * mm,
      qr_size = 40 * mm, text_space = 10 * mm, footer_height = 15 * mm\<rparr>"

definition badge_width :: "config \<Rightarrow> rat" where
  "badge_width cfg = qr_size cfg"

definition badge_height :: "config \<Rightarrow> rat" where
  "badge_height cfg = qr_size cfg + text_space cfg"

record geometry =
  usable_width :: rat
  usable_height :: rat
  cols :: int
  rows :: int
  badges_per_page :: int
  h_spacing :: rat
  v_spacing :: rat

text \<open>The grid that the constants of the source give (see \<open>computeGeometry_default\<close>).\<close>

definition default_geometry :: geometry where
  "default_geometry =
     \<lparr>usable_width = 190 * mm, usable_height = 262 * mm, cols = 4, rows = 5,
      badges_per_page = 20, h_spacing = 6 * mm, v_spacing = 2 * mm\<rparr>"

text \<open>Two badges that do not fit the page: one wider than the usable width (the
  250 mm of the specification's scenario), one taller than the usable height.\<close>

definition wide_badge_config :: config where
  "wide_badge_config = default_config\<lparr>qr_size := 250 * mm\<rparr>"

definition tall_badge_config :: config where
  "tall_badge_config = default_config\<lparr>text_space := 300 * mm\<rparr>"

text \<open>\<^verbatim>\<open>int(a // b)\<close> on floats: the floor of the quotient; a zero divisor raises.\<close>

definition floordiv :: "rat \<Rightarrow> rat \<Rightarrow> error + int" where
  "floordiv a b = (if b = 0 then Inl ZeroDivisionError else Inr \<lfloor>a / b\<rfloor>)"

definition computeGeometry :: "config \<Rightarrow> error + geometry" where
  "computeGeometry cfg =
     (let uw = page_width cfg - (2 * margin cfg);
          uh = page_height cfg - (2 * margin cfg) - footer_height cfg
      in case floordiv uw (badge_width cfg) of Inl e \<Rightarrow> Inl e | Inr c \<Rightarrow>
        (case floordiv uh (badge_height cfg) of Inl e \<Rightarrow> Inl e | Inr r \<Rightarrow>
           (let total_badge_width = of_int c * badge_width cfg;
                total_badge_height = of_int r * badge_height cfg
            in Inr \<lparr>usable_width = uw, usable_height = uh, cols = c, rows = r,
                    badges_per_page = c * r,
                    h_spacing = (if c > 1 then (uw - total_badge_width) / (of_int c + 1) else 0),
                    v_spacing = (if r > 1 then (uh - total_badge_height) / (of_int r + 1) else 0)\<rparr>)))"

subsection \<open>The canvas\<close>

text \<open>
  What one call of \<^verbatim>\<open>draw_badge\<close> puts on the page: the grid cell, the anchor
  (\<open>y_from_top\<close> from the top edge, \<open>badge_y\<close> from the bottom edge as reportlab
  wants it), the QR image if one is drawn (its payload stands for the image) and
  the label.
\<close>

record badge =
  badge_col :: int
  badge_row :: int
  badge_x :: rat
  y_from_top :: rat
  badge_y :: rat
  qr_payload :: "string option"
  label :: string
  name_x :: rat
  name_y :: rat

text \<open>One call of \<^verbatim>\<open>drawCentredString(x, y, text)\<close>.\<close>

record centred_string =
  at_x :: rat
  at_y :: rat
  text_of :: string

text \<open>
  The drawing calls, one constructor for each helper of \<^verbatim>\<open>generate_badges_pdf\<close>:
  \<open>Footer t\<close> is \<^verbatim>\<open>draw_footer\<close> writing the string \<open>t\<close>, \<open>EntityFooter i d\<close> is
  \<^verbatim>\<open>draw_entity_footer\<close> writing the id \<open>i\<close> and below it the display name \<open>d\<close>,
  \<open>Badge p k b\<close> is \<^verbatim>\<open>draw_badge(p, k)\<close> with the placement \<open>b\<close> it computed.
\<close>

datatype draw_op =
    Footer centred_string
  | EntityFooter centred_string centred_string
  | Badge participant int badge

text \<open>The canvas: the pages closed by \<^verbatim>\<open>showPage\<close> so far, and the calls on the
  page that is open.\<close>

record canvas =
  pages :: "draw_op list list"
  current :: "draw_op list"

definition new_canvas :: canvas where
  "new_canvas = \<lparr>pages = [], current = []\<rparr>"

definition draw :: "draw_op \<Rightarrow> canvas \<Rightarrow> canvas" where
  "draw x c = c\<lparr>current := current c @ [x]\<rparr>"

definition showPage :: "canvas \<Rightarrow> canvas" where
  "showPage c = \<lparr>pages = pages c @ [current c], current = []\<rparr>"

text \<open>\<^verbatim>\<open>save\<close> closes a page that has calls on it and yields the document.\<close>

definition save :: "canvas \<Rightarrow> draw_op list list" where
  "save c = (if current c = [] then pages c else pages c @ [current c])"

text \<open>Both footers are written from the bottom margin upwards
  (\<^verbatim>\<open>footer_y = margin\<close>, in reportlab's coordinates from the bottom edge).\<close>

definition footer_op :: "config \<Rightarrow> string \<Rightarrow> draw_op" where
  "footer_op cfg footer_text =
     (let footer_y = margin cfg
      in Footer \<lparr>at_x = page_width cfg / 2, at_y = footer_y, text_of = footer_text\<rparr>)"

definition draw_footer :: "config \<Rightarrow> string \<Rightarrow> canvas \<Rightarrow> canvas" where
  "draw_footer cfg footer_text c = draw (footer_op cfg footer_text) c"

definition entity_footer_op :: "config \<Rightarrow> string \<Rightarrow> entity_info \<Rightarrow> draw_op" where
  "entity_footer_op cfg entity_id info =
     (let footer_y = margin cfg
      in EntityFooter
           \<lparr>at_x = page_width cfg / 2, at_y = footer_y + 5 * mm, text_of = entity_id\<rparr>
           \<lparr>at_x = page_width cfg / 2, at_y = footer_y, text_of = display_name info\<rparr>)"

definition draw_entity_footer :: "config \<Rightarrow> string \<Rightarrow> entity_info \<Rightarrow> canvas \<Rightarrow> canvas" where
  "draw_entity_footer cfg entity_id info c = draw (entity_footer_op cfg entity_id info) c"

definition max_name_length :: nat where
  "max_name_length = 25"

text \<open>Lines 187 to 190: the label is the name, cut when it is too long.\<close>

definition truncate_name :: "string \<Rightarrow> string" where
  "truncate_name participant_name =
     (if length participant_name > max_name_length
      then take (max_name_length - 3) participant_name @ ''...''
      else participant_name)"

text \<open>\<^verbatim>\<open>draw_badge\<close>: \<^verbatim>\<open>badge_index % cols\<close> raises when \<open>cols\<close> is zero; Python's
  \<^verbatim>\<open>%\<close> and \<^verbatim>\<open>//\<close> on integers are \<open>mod\<close> and \<open>div\<close> on \<open>int\<close>.\<close>

definition draw_badge ::
  "config \<Rightarrow> geometry \<Rightarrow> participant \<Rightarrow> int \<Rightarrow> canvas \<Rightarrow> error + canvas" where
  "draw_badge cfg g p badge_index c =
     (if cols g = 0 then Inl ZeroDivisionError
      else
        (let col = badge_index mod cols g;
             row = badge_index div cols g;
             x = margin cfg + h_spacing g + of_int col * (badge_width cfg + h_spacing g);
             yt = margin cfg + footer_height cfg + v_spacing g
                    + of_int row * (badge_height cfg + v_spacing g);
             y = page_height cfg - yt - badge_height cfg
         in Inr (draw (Badge p badge_index
                   \<lparr>badge_col = col, badge_row = row, badge_x = x, y_from_top = yt, badge_y = y,
                    qr_payload = (if participant_id p \<noteq> [] then Some (participant_id p) else None),
                    label = truncate_name (name p),
                    name_x = x + (qr_size cfg / 2), name_y = y + (text_space cfg / 2)\<rparr>) c)))"

text \<open>Reading a page back: the participants whose badges are on it, in the order
  drawn, and the footers written on it.\<close>

fun badges_on :: "draw_op list \<Rightarrow> participant list" where
  "badges_on [] = []"
| "badges_on (Badge p k b # xs) = p # badges_on xs"
| "badges_on (x # xs) = badges_on xs"

text \<open>The name of each participant drawn on the page, with the label written for it.\<close>

fun labels_on :: "draw_op list \<Rightarrow> (string \<times> string) list" where
  "labels_on [] = []"
| "labels_on (Badge p k b # xs) = (name p, label b) # labels_on xs"
| "labels_on (x # xs) = labels_on xs"

fun footers_on :: "draw_op list \<Rightarrow> draw_op list" where
  "footers_on [] = []"
| "footers_on (Badge p k b # xs) = footers_on xs"
| "footers_on (x # xs) = x # footers_on xs"

subsection \<open>The compositor\<close>

text \<open>
  The loop over the participants of one entity (lines 204 to 212 and 231 to 239:
  the two loops differ only in the footer they redraw, the argument \<open>footer\<close>).
  The state is the canvas and \<^verbatim>\<open>badge_index\<close>.
\<close>

fun place_badges ::
  "config \<Rightarrow> geometry \<Rightarrow> (canvas \<Rightarrow> canvas) \<Rightarrow> participant list \<Rightarrow> canvas \<times> int
     \<Rightarrow> error + canvas \<times> int" where
  "place_badges cfg g footer [] st = Inr st"
| "place_badges cfg g footer (p # ps) (c, badge_index) =
     (let (c1, i1) = (if badge_index \<ge> badges_per_page g
                      then (footer (showPage c), 0)
                      else (c, badge_index))
      in case draw_badge cfg g p i1 c1 of
           Inl e \<Rightarrow> Inl e
         | Inr c2 \<Rightarrow> place_badges cfg g footer ps (c2, i1 + 1))"

text \<open>\<^verbatim>\<open>group_all_together\<close>: lines 199 to 215.\<close>

fun grouped_loop ::
  "config \<Rightarrow> geometry \<Rightarrow> (string, participant list) dict \<Rightarrow> canvas \<times> int
     \<Rightarrow> error + canvas \<times> int" where
  "grouped_loop cfg g [] st = Inr st"
| "grouped_loop cfg g ((entity_id, participants) # rest) st =
     (case place_badges cfg g (draw_footer cfg ''Private Delegates'') participants st of
        Inl e \<Rightarrow> Inl e
      | Inr st' \<Rightarrow> grouped_loop cfg g rest st')"

definition render_grouped ::
  "config \<Rightarrow> geometry \<Rightarrow> (string, participant list) dict \<Rightarrow> canvas \<Rightarrow> error + canvas" where
  "render_grouped cfg g participants_by_entity c =
     (case grouped_loop cfg g participants_by_entity (draw_footer cfg ''Private Delegates'' c, 0) of
        Inl e \<Rightarrow> Inl e
      | Inr (c', i) \<Rightarrow> Inr (showPage c'))"

text \<open>One entity on its own pages: lines 219 to 242.\<close>

definition unknown_entity :: entity_info where
  "unknown_entity = \<lparr>entity_type = ''Unknown'', display_name = ''Unknown Delegation''\<rparr>"

definition entity_lookup :: "(string, entity_info) dict \<Rightarrow> string \<Rightarrow> entity_info" where
  "entity_lookup entities entity_id =
     (case map_of entities entity_id of Some info \<Rightarrow> info | None \<Rightarrow> unknown_entity)"

fun render_per_entity ::
  "config \<Rightarrow> geometry \<Rightarrow> (string, entity_info) dict \<Rightarrow> (string, participant list) dict
     \<Rightarrow> canvas \<Rightarrow> error + canvas" where
  "render_per_entity cfg g entities [] c = Inr c"
| "render_per_entity cfg g entities ((entity_id, participants) # rest) c =
     (let info = entity_lookup entities entity_id
      in case place_badges cfg g (draw_entity_footer cfg entity_id info) participants
                (draw_entity_footer cfg entity_id info c, 0) of
           Inl e \<Rightarrow> Inl e
         | Inr (c', i) \<Rightarrow> render_per_entity cfg g entities rest (showPage c'))"

subsection \<open>The output: files and console\<close>

datatype message =
    Line string
  | NoParticipants string
  | Generated string string nat nat
  | FoundPrivate nat
  | FoundDelegation nat

text \<open>The files written so far, by path, and the lines printed.\<close>

record world =
  files :: "(string, draw_op list list) dict"
  console :: "message list"

definition say :: "message \<Rightarrow> world \<Rightarrow> world" where
  "say m w = w\<lparr>console := console w @ [m]\<rparr>"

text \<open>\<^verbatim>\<open>generate_badges_pdf\<close>. The file is written by \<^verbatim>\<open>c.save()\<close> only; an exception
  before it leaves the world as it was.\<close>

definition generate_badges_pdf ::
  "config \<Rightarrow> (string, entity_info) dict \<Rightarrow> (string, participant list) dict \<Rightarrow> string \<Rightarrow> string
     \<Rightarrow> bool \<Rightarrow> world \<Rightarrow> error + world" where
  "generate_badges_pdf cfg entities participants_by_entity output_file pdf_title
       group_all_together w =
     (if participants_by_entity = [] then Inr (say (NoParticipants output_file) w)
      else (case computeGeometry cfg of Inl e \<Rightarrow> Inl e | Inr g \<Rightarrow>
        (case (if group_all_together
               then render_grouped cfg g participants_by_entity new_canvas
               else render_per_entity cfg g entities participants_by_entity new_canvas) of
           Inl e \<Rightarrow> Inl e
         | Inr c \<Rightarrow>
             Inr (say (Generated pdf_title output_file (length participants_by_entity)
                        (sum_list (map (\<lambda>(k, ps). length ps) participants_by_entity)))
                   (w\<lparr>files := AList.update output_file (save c) (files w)\<rparr>)))))"

subsection \<open>Partition and dispatch: \<^verbatim>\<open>main\<close>\<close>

definition is_private_delegate :: "string \<Rightarrow> bool" where
  "is_private_delegate etype = str_in ''private delegate'' (lower etype)"

text \<open>Lines 276 to 281.\<close>

fun classify_entities ::
  "(string, entity_info) dict \<Rightarrow> (string, entity_info) dict \<times> (string, entity_info) dict
     \<Rightarrow> (string, entity_info) dict \<times> (string, entity_info) dict" where
  "classify_entities [] acc = acc"
| "classify_entities ((entity_id, info) # rest) (private_delegate_entities, delegation_entities) =
     (if is_private_delegate (entity_type info)
      then classify_entities rest
             (AList.update entity_id info private_delegate_entities, delegation_entities)
      else classify_entities rest
             (private_delegate_entities, AList.update entity_id info delegation_entities))"

text \<open>Lines 287 to 294: \<^verbatim>\<open>entities.get(entity_id, {}).get('entity_type', '')\<close> is the
  empty string for an entity that was not loaded.\<close>

definition entity_type_of :: "(string, entity_info) dict \<Rightarrow> string \<Rightarrow> string" where
  "entity_type_of entities entity_id =
     (case map_of entities entity_id of None \<Rightarrow> [] | Some info \<Rightarrow> entity_type info)"

fun split_participants ::
  "(string, entity_info) dict \<Rightarrow> (string, participant list) dict
     \<Rightarrow> (string, participant list) dict \<times> (string, participant list) dict
     \<Rightarrow> (string, participant list) dict \<times> (string, participant list) dict" where
  "split_participants entities [] acc = acc"
| "split_participants entities ((entity_id, participants) # rest)
       (private_delegate_participants, delegation_participants) =
     (if is_private_delegate (entity_type_of entities entity_id)
      then split_participants entities rest
             (AList.update entity_id participants private_delegate_participants,
              delegation_participants)
      else split_participants entities rest
             (private_delegate_participants,
              AList.update entity_id participants delegation_participants))"

text \<open>\<^verbatim>\<open>main\<close>, from the rows of the two files. An exception comes back with the
  world at the moment it was raised. Of the lines printed, the rules of \<^verbatim>\<open>=\<close> signs
  and the blank lines are left out.\<close>

definition main ::
  "config \<Rightarrow> row list \<Rightarrow> row list \<Rightarrow> world \<Rightarrow> (error \<times> world) + world" where
  "main cfg entity_rows participant_rows w0 =
     (let w1 = say (Line ''Loading data...'') w0
      in case load_entities entity_rows of Inl e \<Rightarrow> Inl (e, w1) | Inr entities \<Rightarrow>
        (case load_participants participant_rows of Inl e \<Rightarrow> Inl (e, w1) | Inr all_participants \<Rightarrow>
           (let (private_delegate_entities, delegation_entities) =
                  classify_entities entities ([], []);
                (private_delegate_participants, delegation_participants) =
                  split_participants entities all_participants ([], []);
                w2 = say (FoundDelegation (length delegation_entities))
                       (say (FoundPrivate (length private_delegate_entities)) w1);
                w3 = say (Line ''Generating PDFs...'') w2
            in (case generate_badges_pdf cfg entities private_delegate_participants
                      ''badges_private_delegates.pdf'' ''Private Delegates PDF'' True w3 of
                 Inl e \<Rightarrow> Inl (e, w3)
               | Inr w4 \<Rightarrow>
                   (case generate_badges_pdf cfg entities delegation_participants
                           ''badges_delegations.pdf'' ''Delegations PDF'' False w4 of
                      Inl e \<Rightarrow> Inl (e, w4)
                    | Inr w5 \<Rightarrow> Inr (say (Line ''All PDFs generated successfully!'') w5))))))"

section \<open>Properties\<close>

subsection \<open>The canvas and the loop over the participants\<close>

lemma pages_draw [simp]: "pages (draw x c) = pages c"
  and current_draw [simp]: "current (draw x c) = current c @ [x]"
  by (simp_all add: draw_def)

lemma pages_showPage [simp]: "pages (showPage c) = pages c @ [current c]"
  and current_showPage [simp]: "current (showPage c) = []"
  by (simp_all add: showPage_def)

lemma badges_on_append [simp]: "badges_on (xs @ ys) = badges_on xs @ badges_on ys"
  by (induction xs rule: badges_on.induct) simp_all

lemma footers_on_append [simp]: "footers_on (xs @ ys) = footers_on xs @ footers_on ys"
  by (induction xs rule: footers_on.induct) simp_all

lemma badges_on_footer: "badges_on [f] = [] \<Longrightarrow> badges_on (f # x # xs) = badges_on (x # xs)"
  by (cases f) simp_all

lemma footers_on_footer:
  "footers_on [f] = [f] \<Longrightarrow> footers_on (f # x # xs) = f # footers_on (x # xs)"
  by (cases f) simp_all

lemma footer_no_badge: "footers_on [f] = [f] \<Longrightarrow> badges_on [f] = []"
  by (cases f) simp_all

lemma draw_badge_ok:
  "cols g \<noteq> 0 \<Longrightarrow> \<exists>b. draw_badge cfg g p k c = Inr (draw (Badge p k b) c)"
  by (auto simp: draw_badge_def Let_def)

lemma draw_badge_zero: "cols g = 0 \<Longrightarrow> draw_badge cfg g p k c = Inl ZeroDivisionError"
  by (simp add: draw_badge_def)

lemma draw_badge_Inr:
  "draw_badge cfg g p k c = Inr c2 \<Longrightarrow> cols g \<noteq> 0 \<and> (\<exists>b. c2 = draw (Badge p k b) c)"
  by (auto simp: draw_badge_def Let_def split: if_splits)

text \<open>The loop over participants never fails on a grid with a column.\<close>

lemma place_badges_total:
  "cols g \<noteq> 0 \<Longrightarrow> \<exists>st'. place_badges cfg g footer ps st = Inr st'"
proof (induction ps arbitrary: st)
  case Nil
  then show ?case by simp
next
  case (Cons p ps)
  obtain c i where st: "st = (c, i)" by (cases st)
  show ?case
  proof (cases "i \<ge> badges_per_page g")
    case True
    obtain b where "draw_badge cfg g p 0 (footer (showPage c))
        = Inr (draw (Badge p 0 b) (footer (showPage c)))"
      using draw_badge_ok [OF Cons.prems] by blast
    then show ?thesis using True st Cons.IH [OF Cons.prems] by simp
  next
    case False
    obtain b where "draw_badge cfg g p i c = Inr (draw (Badge p i b) c)"
      using draw_badge_ok [OF Cons.prems] by blast
    then show ?thesis using False st Cons.IH [OF Cons.prems] by simp
  qed
qed

text \<open>Without a column the first badge raises.\<close>

lemma place_badges_zero_cols:
  "cols g = 0 \<Longrightarrow> ps \<noteq> [] \<Longrightarrow> place_badges cfg g footer ps st = Inl ZeroDivisionError"
  by (cases ps; cases st) (simp_all add: draw_badge_zero)

text \<open>What the loop leaves on the canvas when it returns: closed pages are only added, every
  page written carries the one footer, and the badges come in the order of the participants.\<close>

lemma place_badges_pages:
  assumes "place_badges cfg g (draw f) ps (c, i) = Inr (c', i')"
    and "footers_on [f] = [f]" and "footers_on (current c) = [f]"
  shows "\<exists>news. pages c' = pages c @ news
           \<and> (\<forall>pg \<in> set (news @ [current c']). footers_on pg = [f])
           \<and> concat (map badges_on (news @ [current c'])) = badges_on (current c) @ ps"
  using assms(1,3)
proof (induction ps arbitrary: c i)
  case Nil
  then show ?case by simp
next
  case (Cons p ps)
  have nb: "badges_on [f] = []" using assms(2) by (rule footer_no_badge)
  show ?case
  proof (cases "i \<ge> badges_per_page g")
    case True
    let ?c1 = "draw f (showPage c)"
    from Cons.prems(1) True obtain c2 where
      d: "draw_badge cfg g p 0 ?c1 = Inr c2"
      and rest: "place_badges cfg g (draw f) ps (c2, 1) = Inr (c', i')"
      by (auto split: sum.splits)
    from draw_badge_Inr [OF d] obtain b where c2: "c2 = draw (Badge p 0 b) ?c1" by blast
    have "footers_on (current c2) = [f]" using assms(2) c2 by (simp add: footers_on_footer)
    from Cons.IH [OF rest this] obtain news where
      r: "pages c' = pages c2 @ news"
         "\<forall>pg \<in> set (news @ [current c']). footers_on pg = [f]"
         "concat (map badges_on (news @ [current c'])) = badges_on (current c2) @ ps"
      by blast
    have "pages c' = pages c @ (current c # news)" using r(1) c2 by simp
    moreover have "\<forall>pg \<in> set ((current c # news) @ [current c']). footers_on pg = [f]"
      using r(2) Cons.prems(2) by simp
    moreover have "concat (map badges_on ((current c # news) @ [current c']))
        = badges_on (current c) @ p # ps"
      using r(3) c2 nb by (simp add: badges_on_footer)
    ultimately show ?thesis by blast
  next
    case False
    from Cons.prems(1) False obtain c2 where
      d: "draw_badge cfg g p i c = Inr c2"
      and rest: "place_badges cfg g (draw f) ps (c2, i + 1) = Inr (c', i')"
      by (auto split: sum.splits)
    from draw_badge_Inr [OF d] obtain b where c2: "c2 = draw (Badge p i b) c" by blast
    have "footers_on (current c2) = [f]" using Cons.prems(2) c2 by simp
    from Cons.IH [OF rest this] obtain news where
      r: "pages c' = pages c2 @ news"
         "\<forall>pg \<in> set (news @ [current c']). footers_on pg = [f]"
         "concat (map badges_on (news @ [current c'])) = badges_on (current c2) @ ps"
      by blast
    have "pages c' = pages c @ news" using r(1) c2 by simp
    moreover have "concat (map badges_on (news @ [current c'])) = badges_on (current c) @ p # ps"
      using r(3) c2 by simp
    ultimately show ?thesis using r(2) by blast
  qed
qed

text \<open>The count of badges: with room for at least one badge on a page, closed pages are
  full and the open page never holds more than a full page.\<close>

lemma place_badges_count:
  assumes "place_badges cfg g (draw f) ps (c, i) = Inr (c', i')"
    and "0 < badges_per_page g" and "badges_on [f] = []"
    and "0 \<le> i" and "i \<le> badges_per_page g"
    and "int (length (badges_on (current c))) = i"
    and "\<forall>pg \<in> set (pages c). int (length (badges_on pg)) = badges_per_page g"
    and "i = 0 \<longrightarrow> pages c = []"
  shows "0 \<le> i' \<and> i' \<le> badges_per_page g
           \<and> int (length (badges_on (current c'))) = i'
           \<and> (\<forall>pg \<in> set (pages c'). int (length (badges_on pg)) = badges_per_page g)
           \<and> (i' = 0 \<longrightarrow> pages c' = [])"
  using assms(1,4-8)
proof (induction ps arbitrary: c i)
  case Nil
  then show ?case by simp
next
  case (Cons p ps)
  show ?case
  proof (cases "i \<ge> badges_per_page g")
    case True
    then have i: "i = badges_per_page g" using Cons.prems(3) by simp
    let ?c1 = "draw f (showPage c)"
    from Cons.prems(1) True obtain c2 where
      d: "draw_badge cfg g p 0 ?c1 = Inr c2"
      and rest: "place_badges cfg g (draw f) ps (c2, 0 + 1) = Inr (c', i')"
      by (auto split: sum.splits)
    from draw_badge_Inr [OF d] obtain b where c2: "c2 = draw (Badge p 0 b) ?c1" by blast
    show ?thesis
      using assms(2,3) Cons.prems i c2
      by (intro Cons.IH [OF rest]) (auto simp: badges_on_footer)
  next
    case False
    from Cons.prems(1) False obtain c2 where
      d: "draw_badge cfg g p i c = Inr c2"
      and rest: "place_badges cfg g (draw f) ps (c2, i + 1) = Inr (c', i')"
      by (auto split: sum.splits)
    from draw_badge_Inr [OF d] obtain b where c2: "c2 = draw (Badge p i b) c" by blast
    show ?thesis
      using assms(2,3) Cons.prems False c2
      by (intro Cons.IH [OF rest]) auto
  qed
qed

text \<open>With no room for a badge on a page, every badge opens a page of its own.\<close>

lemma place_badges_no_room:
  assumes "place_badges cfg g (draw f) ps (c, i) = Inr (c', i')"
    and "badges_per_page g \<le> 0" and "0 \<le> i" and "badges_on [f] = []"
  shows "map badges_on (pages c' @ [current c'])
           = map badges_on (pages c) @ [badges_on (current c)] @ map (\<lambda>p. [p]) ps"
  using assms(1,3)
proof (induction ps arbitrary: c i)
  case Nil
  then show ?case by simp
next
  case (Cons p ps)
  let ?c1 = "draw f (showPage c)"
  have ge: "i \<ge> badges_per_page g" using assms(2) Cons.prems(2) by simp
  from Cons.prems(1) ge obtain c2 where
    d: "draw_badge cfg g p 0 ?c1 = Inr c2"
    and rest: "place_badges cfg g (draw f) ps (c2, 1) = Inr (c', i')"
    by (auto split: sum.splits)
  from draw_badge_Inr [OF d] obtain b where c2: "c2 = draw (Badge p 0 b) ?c1" by blast
  have "map badges_on (pages c' @ [current c'])
           = map badges_on (pages c2) @ [badges_on (current c2)] @ map (\<lambda>p. [p]) ps"
    by (rule Cons.IH [OF rest]) simp
  then show ?case using c2 assms(4) by (simp add: badges_on_footer)
qed


subsection \<open>The grouped stream\<close>

lemma draw_footer_draw: "draw_footer cfg t = draw (footer_op cfg t)"
  by (rule ext) (simp add: draw_footer_def)

lemma draw_entity_footer_draw:
  "draw_entity_footer cfg k info = draw (entity_footer_op cfg k info)"
  by (rule ext) (simp add: draw_entity_footer_def)

lemma footers_on_footer_op [simp]: "footers_on [footer_op cfg t] = [footer_op cfg t]"
  by (simp add: footer_op_def Let_def)

lemma footers_on_entity_footer_op [simp]:
  "footers_on [entity_footer_op cfg k info] = [entity_footer_op cfg k info]"
  by (simp add: entity_footer_op_def Let_def)

lemma badges_on_footer_op [simp]: "badges_on [footer_op cfg t] = []"
  by (simp add: footer_op_def Let_def)

lemma badges_on_entity_footer_op [simp]: "badges_on [entity_footer_op cfg k info] = []"
  by (simp add: entity_footer_op_def Let_def)

lemma computeGeometry_bpp:
  "computeGeometry cfg = Inr g \<Longrightarrow> badges_per_page g = cols g * rows g"
  by (auto simp: computeGeometry_def floordiv_def Let_def split: if_splits)

lemma place_badges_index_nonneg:
  "place_badges cfg g footer ps (c, i) = Inr (c', i') \<Longrightarrow> 0 \<le> i \<Longrightarrow> 0 \<le> i'"
proof (induction ps arbitrary: c i)
  case Nil
  then show ?case by simp
next
  case (Cons p ps)
  show ?case
  proof (cases "i \<ge> badges_per_page g")
    case True
    with Cons.prems(1) obtain c2 where
      "place_badges cfg g footer ps (c2, 0 + 1) = Inr (c', i')"
      by (auto split: sum.splits)
    then show ?thesis by (rule Cons.IH) simp
  next
    case False
    with Cons.prems(1) obtain c2 where
      r: "place_badges cfg g footer ps (c2, i + 1) = Inr (c', i')"
      by (auto split: sum.splits)
    show ?thesis using Cons.prems(2) by (intro Cons.IH [OF r]) simp
  qed
qed

lemma grouped_loop_total:
  "cols g \<noteq> 0 \<Longrightarrow> \<exists>st'. grouped_loop cfg g pbe st = Inr st'"
proof (induction pbe arbitrary: st)
  case Nil
  then show ?case by simp
next
  case (Cons e pbe)
  obtain k ps where e: "e = (k, ps)" by (cases e)
  obtain st1 where "place_badges cfg g (draw_footer cfg ''Private Delegates'') ps st = Inr st1"
    using place_badges_total [OF Cons.prems] by blast
  then show ?case using e Cons.IH [OF Cons.prems, of st1] by simp
qed

lemma grouped_loop_zero_cols:
  "cols g = 0 \<Longrightarrow> concat (map snd pbe) \<noteq> []
     \<Longrightarrow> grouped_loop cfg g pbe st = Inl ZeroDivisionError"
proof (induction pbe arbitrary: st)
  case Nil
  then show ?case by simp
next
  case (Cons e pbe)
  obtain k ps where e: "e = (k, ps)" by (cases e)
  show ?case
  proof (cases "ps = []")
    case True
    then show ?thesis using e Cons by simp
  next
    case False
    then show ?thesis using e place_badges_zero_cols [OF Cons.prems(1) False] by simp
  qed
qed

lemma grouped_loop_pages:
  assumes "grouped_loop cfg g pbe (c, i) = Inr (c', i')"
    and "footers_on (current c) = [footer_op cfg ''Private Delegates'']"
  shows "\<exists>news. pages c' = pages c @ news
           \<and> (\<forall>pg \<in> set (news @ [current c']).
                 footers_on pg = [footer_op cfg ''Private Delegates''])
           \<and> concat (map badges_on (news @ [current c']))
               = badges_on (current c) @ concat (map snd pbe)"
  using assms
proof (induction pbe arbitrary: c i)
  case Nil
  then show ?case by simp
next
  case (Cons e pbe)
  let ?f = "footer_op cfg ''Private Delegates''"
  obtain k ps where e: "e = (k, ps)" by (cases e)
  from Cons.prems(1) e obtain c1 i1 where
    p: "place_badges cfg g (draw ?f) ps (c, i) = Inr (c1, i1)"
    and rest: "grouped_loop cfg g pbe (c1, i1) = Inr (c', i')"
    by (auto simp: draw_footer_draw split: sum.splits)
  from place_badges_pages [OF p _ Cons.prems(2)] obtain n1 where
    n1: "pages c1 = pages c @ n1"
        "\<forall>pg \<in> set (n1 @ [current c1]). footers_on pg = [?f]"
        "concat (map badges_on (n1 @ [current c1])) = badges_on (current c) @ ps"
    by auto
  have "footers_on (current c1) = [?f]" using n1(2) by simp
  from Cons.IH [OF rest this] obtain n2 where
    n2: "pages c' = pages c1 @ n2"
        "\<forall>pg \<in> set (n2 @ [current c']). footers_on pg = [?f]"
        "concat (map badges_on (n2 @ [current c'])) = badges_on (current c1) @ concat (map snd pbe)"
    by blast
  have "pages c' = pages c @ (n1 @ n2)" using n1(1) n2(1) by simp
  moreover have "\<forall>pg \<in> set ((n1 @ n2) @ [current c']). footers_on pg = [?f]"
    using n1(2) n2(2) by auto
  moreover have "concat (map badges_on ((n1 @ n2) @ [current c']))
      = badges_on (current c) @ concat (map snd (e # pbe))"
    using n1(3) n2(3) e by simp
  ultimately show ?case by blast
qed

lemma grouped_loop_count:
  assumes "grouped_loop cfg g pbe (c, i) = Inr (c', i')"
    and "0 < badges_per_page g"
    and "0 \<le> i" and "i \<le> badges_per_page g"
    and "int (length (badges_on (current c))) = i"
    and "\<forall>pg \<in> set (pages c). int (length (badges_on pg)) = badges_per_page g"
    and "i = 0 \<longrightarrow> pages c = []"
  shows "0 \<le> i' \<and> i' \<le> badges_per_page g
           \<and> int (length (badges_on (current c'))) = i'
           \<and> (\<forall>pg \<in> set (pages c'). int (length (badges_on pg)) = badges_per_page g)
           \<and> (i' = 0 \<longrightarrow> pages c' = [])"
  using assms(1,3-7)
proof (induction pbe arbitrary: c i)
  case Nil
  then show ?case by simp
next
  case (Cons e pbe)
  let ?f = "footer_op cfg ''Private Delegates''"
  obtain k ps where e: "e = (k, ps)" by (cases e)
  from Cons.prems(1) e obtain c1 i1 where
    p: "place_badges cfg g (draw ?f) ps (c, i) = Inr (c1, i1)"
    and rest: "grouped_loop cfg g pbe (c1, i1) = Inr (c', i')"
    by (auto simp: draw_footer_draw split: sum.splits)
  have "0 \<le> i1 \<and> i1 \<le> badges_per_page g
           \<and> int (length (badges_on (current c1))) = i1
           \<and> (\<forall>pg \<in> set (pages c1). int (length (badges_on pg)) = badges_per_page g)
           \<and> (i1 = 0 \<longrightarrow> pages c1 = [])"
    using Cons.prems by (intro place_badges_count [OF p assms(2)]) simp_all
  then show ?case by (intro Cons.IH [OF rest]) simp_all
qed

lemma grouped_loop_no_room:
  assumes "grouped_loop cfg g pbe (c, i) = Inr (c', i')"
    and "badges_per_page g \<le> 0" and "0 \<le> i"
  shows "0 \<le> i' \<and> map badges_on (pages c' @ [current c'])
           = map badges_on (pages c) @ [badges_on (current c)]
               @ map (\<lambda>p. [p]) (concat (map snd pbe))"
  using assms(1,3)
proof (induction pbe arbitrary: c i)
  case Nil
  then show ?case by simp
next
  case (Cons e pbe)
  let ?f = "footer_op cfg ''Private Delegates''"
  obtain k ps where e: "e = (k, ps)" by (cases e)
  from Cons.prems(1) e obtain c1 i1 where
    p: "place_badges cfg g (draw ?f) ps (c, i) = Inr (c1, i1)"
    and rest: "grouped_loop cfg g pbe (c1, i1) = Inr (c', i')"
    by (auto simp: draw_footer_draw split: sum.splits)
  have 1: "map badges_on (pages c1 @ [current c1])
           = map badges_on (pages c) @ [badges_on (current c)] @ map (\<lambda>p. [p]) ps"
    using Cons.prems(2) by (intro place_badges_no_room [OF p assms(2)]) simp_all
  have i1: "0 \<le> i1" using p Cons.prems(2) by (rule place_badges_index_nonneg)
  from Cons.IH [OF rest i1] 1 e show ?case by simp
qed

lemma computeGeometry_default: "computeGeometry default_config = Inr default_geometry"
proof -
  have c: "\<lfloor>(19::rat) / 4\<rfloor> = 4" and r: "\<lfloor>(131::rat) / 25\<rfloor> = 5"
    by (simp_all add: floor_eq_iff)
  show ?thesis
    by (simp add: computeGeometry_def floordiv_def default_config_def default_geometry_def
        badge_width_def badge_height_def A4_def mm_def Let_def c r)
qed

lemma length_concat_full:
  "\<forall>x \<in> set xs. int (length (h x)) = b
     \<Longrightarrow> int (length (concat (map h xs))) = int (length xs) * b"
  by (induction xs) (simp_all add: algebra_simps)

lemma last_page_count:
  fixes n k b i :: int
  assumes "n = k * b + i" and "0 < i" and "i \<le> b" and "0 \<le> k"
  shows "i = (if n mod b = 0 then b else n mod b)"
proof (cases "i = b")
  case True
  then show ?thesis using assms by simp
next
  case False
  then have "i < b" using assms(3) by simp
  then have "n mod b = i" using assms(1,2) by simp
  then show ?thesis using assms(2) by simp
qed

subsection \<open>The stream with one entity to a page\<close>

lemma render_per_entity_total:
  "cols g \<noteq> 0 \<Longrightarrow> \<exists>c'. render_per_entity cfg g entities pbe c = Inr c'"
proof (induction pbe arbitrary: c)
  case Nil
  then show ?case by simp
next
  case (Cons e pbe)
  obtain k ps where e: "e = (k, ps)" by (cases e)
  let ?info = "entity_lookup entities k"
  obtain c1 i1 where "place_badges cfg g (draw_entity_footer cfg k ?info) ps
      (draw_entity_footer cfg k ?info c, 0) = Inr (c1, i1)"
    using place_badges_total [OF Cons.prems] by (metis surj_pair)
  then show ?case using e Cons.IH [OF Cons.prems, of "showPage c1"] by (simp add: Let_def)
qed

lemma render_per_entity_zero_cols:
  "cols g = 0 \<Longrightarrow> concat (map snd pbe) \<noteq> []
     \<Longrightarrow> render_per_entity cfg g entities pbe c = Inl ZeroDivisionError"
proof (induction pbe arbitrary: c)
  case Nil
  then show ?case by simp
next
  case (Cons e pbe)
  obtain k ps where e: "e = (k, ps)" by (cases e)
  show ?case
  proof (cases "ps = []")
    case True
    then show ?thesis using e Cons by (simp add: Let_def)
  next
    case False
    then show ?thesis
      using e place_badges_zero_cols [OF Cons.prems(1) False] by (simp add: Let_def)
  qed
qed

lemma render_per_entity_pages:
  assumes "render_per_entity cfg g entities pbe c = Inr c'" and "current c = []"
  shows "current c' = []
     \<and> (\<exists>groups. pages c' = pages c @ concat groups
           \<and> list_all2 (\<lambda>e grp. grp \<noteq> []
                 \<and> (\<forall>pg \<in> set grp. footers_on pg
                        = [entity_footer_op cfg (fst e) (entity_lookup entities (fst e))])
                 \<and> concat (map badges_on grp) = snd e) pbe groups)"
  using assms
proof (induction pbe arbitrary: c)
  case Nil
  then show ?case by simp
next
  case (Cons e pbe)
  obtain k ps where e: "e = (k, ps)" by (cases e)
  let ?f = "entity_footer_op cfg k (entity_lookup entities k)"
  from Cons.prems(1) e obtain c1 i1 where
    p: "place_badges cfg g (draw ?f) ps (draw ?f c, 0) = Inr (c1, i1)"
    and rest: "render_per_entity cfg g entities pbe (showPage c1) = Inr c'"
    by (auto simp: draw_entity_footer_draw Let_def split: sum.splits)
  have start: "footers_on (current (draw ?f c)) = [?f]" using Cons.prems(2) by simp
  from place_badges_pages [OF p _ start] obtain n1 where
    n1: "pages c1 = pages (draw ?f c) @ n1"
        "\<forall>pg \<in> set (n1 @ [current c1]). footers_on pg = [?f]"
        "concat (map badges_on (n1 @ [current c1])) = badges_on (current (draw ?f c)) @ ps"
    by auto
  let ?grp = "n1 @ [current c1]"
  have g3: "concat (map badges_on ?grp) = ps" using n1(3) Cons.prems(2) by simp
  from Cons.IH [OF rest] obtain groups where
    ih: "current c' = []" "pages c' = pages (showPage c1) @ concat groups"
        "list_all2 (\<lambda>e grp. grp \<noteq> []
                 \<and> (\<forall>pg \<in> set grp. footers_on pg
                        = [entity_footer_op cfg (fst e) (entity_lookup entities (fst e))])
                 \<and> concat (map badges_on grp) = snd e) pbe groups"
    by auto
  have "pages c' = pages c @ concat (?grp # groups)" using ih(2) n1(1) by simp
  moreover have "list_all2 (\<lambda>e grp. grp \<noteq> []
                 \<and> (\<forall>pg \<in> set grp. footers_on pg
                        = [entity_footer_op cfg (fst e) (entity_lookup entities (fst e))])
                 \<and> concat (map badges_on grp) = snd e) (e # pbe) (?grp # groups)"
    using ih(3) n1(2) g3 e by simp
  ultimately show ?case using ih(1) by blast
qed

lemma render_per_entity_no_room:
  assumes "render_per_entity cfg g entities pbe c = Inr c'"
    and "badges_per_page g \<le> 0" and "current c = []"
  shows "map badges_on (pages c')
           = map badges_on (pages c) @ concat (map (\<lambda>e. [] # map (\<lambda>p. [p]) (snd e)) pbe)"
  using assms(1,3)
proof (induction pbe arbitrary: c)
  case Nil
  then show ?case by simp
next
  case (Cons e pbe)
  obtain k ps where e: "e = (k, ps)" by (cases e)
  let ?f = "entity_footer_op cfg k (entity_lookup entities k)"
  from Cons.prems(1) e obtain c1 i1 where
    p: "place_badges cfg g (draw ?f) ps (draw ?f c, 0) = Inr (c1, i1)"
    and rest: "render_per_entity cfg g entities pbe (showPage c1) = Inr c'"
    by (auto simp: draw_entity_footer_draw Let_def split: sum.splits)
  have 1: "map badges_on (pages c1 @ [current c1])
           = map badges_on (pages (draw ?f c)) @ [badges_on (current (draw ?f c))]
               @ map (\<lambda>p. [p]) ps"
    by (intro place_badges_no_room [OF p assms(2)]) simp_all
  have "map badges_on (pages c')
      = map badges_on (pages (showPage c1)) @ concat (map (\<lambda>e. [] # map (\<lambda>p. [p]) (snd e)) pbe)"
    by (rule Cons.IH [OF rest]) simp
  then show ?case using 1 e Cons.prems(2) by simp
qed

lemma list_all2_right_member:
  "list_all2 P xs ys \<Longrightarrow> y \<in> set ys \<Longrightarrow> \<exists>x \<in> set xs. P x y"
  by (induction rule: list_all2_induct) auto

lemma computeGeometry_returns:
  "badge_width cfg \<noteq> 0 \<Longrightarrow> badge_height cfg \<noteq> 0 \<Longrightarrow> \<exists>g. computeGeometry cfg = Inr g"
  by (simp add: computeGeometry_def floordiv_def Let_def)

lemma computeGeometry_wide:
  "computeGeometry wide_badge_config
     = Inr \<lparr>usable_width = 190 * mm, usable_height = 262 * mm, cols = 0, rows = 1,
            badges_per_page = 0, h_spacing = 0, v_spacing = 0\<rparr>"
proof -
  have c: "\<lfloor>(19::rat) / 25\<rfloor> = 0" and r: "\<lfloor>(131::rat) / 130\<rfloor> = 1"
    by (simp_all add: floor_eq_iff)
  show ?thesis
    by (simp add: computeGeometry_def floordiv_def default_config_def wide_badge_config_def
        badge_width_def badge_height_def A4_def mm_def Let_def c r)
qed

lemma computeGeometry_tall:
  "computeGeometry tall_badge_config
     = Inr \<lparr>usable_width = 190 * mm, usable_height = 262 * mm, cols = 4, rows = 0,
            badges_per_page = 0, h_spacing = 6 * mm, v_spacing = 0\<rparr>"
proof -
  have c: "\<lfloor>(19::rat) / 4\<rfloor> = 4" and r: "\<lfloor>(131::rat) / 170\<rfloor> = 0"
    by (simp_all add: floor_eq_iff)
  show ?thesis
    by (simp add: computeGeometry_def floordiv_def default_config_def tall_badge_config_def
        badge_width_def badge_height_def A4_def mm_def Let_def c r)
qed

lemma render_grouped_zero_cols:
  "cols g = 0 \<Longrightarrow> concat (map snd pbe) \<noteq> []
     \<Longrightarrow> render_grouped cfg g pbe c = Inl ZeroDivisionError"
  by (simp add: render_grouped_def grouped_loop_zero_cols)

lemma render_grouped_no_room:
  assumes "cols g \<noteq> 0" and "badges_per_page g \<le> 0"
  shows "\<exists>c. render_grouped cfg g pbe new_canvas = Inr c
     \<and> map badges_on (pages c) = [] # map (\<lambda>p. [p]) (concat (map snd pbe))"
proof -
  let ?f = "footer_op cfg ''Private Delegates''"
  obtain c' i' where
    loop: "grouped_loop cfg g pbe (draw ?f new_canvas, 0) = Inr (c', i')"
    using grouped_loop_total [OF assms(1)] by (metis surj_pair)
  have r: "render_grouped cfg g pbe new_canvas = Inr (showPage c')"
    using loop by (simp add: render_grouped_def draw_footer_draw)
  have "map badges_on (pages c' @ [current c'])
      = map badges_on (pages (draw ?f new_canvas)) @ [badges_on (current (draw ?f new_canvas))]
          @ map (\<lambda>p. [p]) (concat (map snd pbe))"
    using grouped_loop_no_room [OF loop assms(2)] by simp
  then have m: "map badges_on (pages (showPage c'))
      = [] # map (\<lambda>p. [p]) (concat (map snd pbe))"
    by (simp add: new_canvas_def)
  show ?thesis by (rule exI [where x = "showPage c'"]) (rule conjI [OF r m])
qed

lemma render_per_entity_no_room_new:
  assumes "cols g \<noteq> 0" and "badges_per_page g \<le> 0"
  shows "\<exists>c. render_per_entity cfg g entities pbe new_canvas = Inr c
     \<and> map badges_on (pages c) = concat (map (\<lambda>e. [] # map (\<lambda>p. [p]) (snd e)) pbe)"
proof -
  obtain c where r: "render_per_entity cfg g entities pbe new_canvas = Inr c"
    using render_per_entity_total [OF assms(1)] by blast
  have "map badges_on (pages c)
      = map badges_on (pages new_canvas) @ concat (map (\<lambda>e. [] # map (\<lambda>p. [p]) (snd e)) pbe)"
    by (rule render_per_entity_no_room [OF r assms(2)]) (simp add: new_canvas_def)
  then have m: "map badges_on (pages c)
      = concat (map (\<lambda>e. [] # map (\<lambda>p. [p]) (snd e)) pbe)"
    by (simp add: new_canvas_def)
  show ?thesis by (rule exI [where x = c]) (rule conjI [OF r m])
qed

lemma generate_zero_cols:
  assumes "computeGeometry cfg = Inr g" and "cols g = 0" and "concat (map snd pbe) \<noteq> []"
  shows "generate_badges_pdf cfg entities pbe out title grouped w = Inl ZeroDivisionError"
proof -
  have "pbe \<noteq> []" using assms(3) by auto
  then show ?thesis
    using assms render_grouped_zero_cols [OF assms(2,3)]
      render_per_entity_zero_cols [OF assms(2,3)]
    by (simp add: generate_badges_pdf_def)
qed

subsection \<open>Dictionaries and the dispatch\<close>

lemma update_fresh: "k \<notin> fst ` set d \<Longrightarrow> AList.update k v d = d @ [(k, v)]"
  by (induction d) auto

lemma classify_entities_filter:
  "distinct (map fst es) \<Longrightarrow> fst ` set es \<inter> (fst ` set pd \<union> fst ` set de) = {}
     \<Longrightarrow> classify_entities es (pd, de)
       = (pd @ filter (\<lambda>e. is_private_delegate (entity_type (snd e))) es,
          de @ filter (\<lambda>e. \<not> is_private_delegate (entity_type (snd e))) es)"
proof (induction es arbitrary: pd de)
  case Nil
  then show ?case by simp
next
  case (Cons e es)
  obtain k info where e: "e = (k, info)" by (cases e)
  have fresh: "k \<notin> fst ` set pd" "k \<notin> fst ` set de" using Cons.prems(2) e by auto
  have d: "distinct (map fst es)" and kn: "k \<notin> fst ` set es" using Cons.prems(1) e by auto
  show ?case
  proof (cases "is_private_delegate (entity_type info)")
    case True
    have "fst ` set es \<inter> (fst ` set (pd @ [(k, info)]) \<union> fst ` set de) = {}"
      using Cons.prems(2) kn by auto
    from Cons.IH [OF d this] True e fresh show ?thesis by (simp add: update_fresh)
  next
    case False
    have "fst ` set es \<inter> (fst ` set pd \<union> fst ` set (de @ [(k, info)])) = {}"
      using Cons.prems(2) kn by auto
    from Cons.IH [OF d this] False e fresh show ?thesis by (simp add: update_fresh)
  qed
qed

lemma split_participants_filter:
  "distinct (map fst xs) \<Longrightarrow> fst ` set xs \<inter> (fst ` set pp \<union> fst ` set dp) = {}
     \<Longrightarrow> split_participants entities xs (pp, dp)
       = (pp @ filter (\<lambda>e. is_private_delegate (entity_type_of entities (fst e))) xs,
          dp @ filter (\<lambda>e. \<not> is_private_delegate (entity_type_of entities (fst e))) xs)"
proof (induction xs arbitrary: pp dp)
  case Nil
  then show ?case by simp
next
  case (Cons e xs)
  obtain k ps where e: "e = (k, ps)" by (cases e)
  have fresh: "k \<notin> fst ` set pp" "k \<notin> fst ` set dp" using Cons.prems(2) e by auto
  have d: "distinct (map fst xs)" and kn: "k \<notin> fst ` set xs" using Cons.prems(1) e by auto
  show ?case
  proof (cases "is_private_delegate (entity_type_of entities k)")
    case True
    have "fst ` set xs \<inter> (fst ` set (pp @ [(k, ps)]) \<union> fst ` set dp) = {}"
      using Cons.prems(2) kn by auto
    from Cons.IH [OF d this] True e fresh show ?thesis by (simp add: update_fresh)
  next
    case False
    have "fst ` set xs \<inter> (fst ` set pp \<union> fst ` set (dp @ [(k, ps)])) = {}"
      using Cons.prems(2) kn by auto
    from Cons.IH [OF d this] False e fresh show ?thesis by (simp add: update_fresh)
  qed
qed

lemma entity_of_row_key:
  "entity_of_row r = Inr (k, info) \<Longrightarrow> row_item r ''entity_id'' = Inr k"
  by (auto simp: entity_of_row_def split: sum.splits)

lemma row_item_entity_of_row:
  "row_item r ''entity_id'' = Inr k \<Longrightarrow> entity_of_row r = Inr (k', info) \<Longrightarrow> k' = k"
  by (auto simp: entity_of_row_def split: sum.splits)

lemma load_entities_loop_keys:
  "load_entities_loop rs acc = Inr es \<Longrightarrow> distinct (map fst acc)
     \<Longrightarrow> distinct (map fst es)
       \<and> fst ` set es = fst ` set acc \<union> {k. \<exists>r \<in> set rs. row_item r ''entity_id'' = Inr k}"
proof (induction rs arbitrary: acc)
  case Nil
  then show ?case by simp
next
  case (Cons r rs)
  from Cons.prems(1) obtain k info where
    e: "entity_of_row r = Inr (k, info)"
    and rest: "load_entities_loop rs (AList.update k info acc) = Inr es"
    by (auto split: sum.splits)
  have d: "distinct (map fst (AList.update k info acc))"
    using Cons.prems(2) by (rule distinct_update)
  have key: "row_item r ''entity_id'' = Inr k" by (rule entity_of_row_key [OF e])
  from Cons.IH [OF rest d] have
    1: "distinct (map fst es)"
    and 2: "fst ` set es = fst ` set (AList.update k info acc)
              \<union> {k. \<exists>r \<in> set rs. row_item r ''entity_id'' = Inr k}"
    by simp_all
  have "fst ` set es = fst ` set acc
          \<union> {k. \<exists>r \<in> set (r # rs). row_item r ''entity_id'' = Inr k}"
    using 2 key by (auto simp: dom_update)
  then show ?case using 1 by simp
qed

lemma is_private_delegate_iff:
  "is_private_delegate t \<longleftrightarrow> (\<exists>a b. lower t = a @ ''private delegate'' @ b)"
  by (simp add: is_private_delegate_def str_in_def sublist_def)

lemma not_private_empty: "\<not> is_private_delegate []"
  by (simp add: is_private_delegate_def str_in_def lower_def)

lemma list_all2_left_member:
  "list_all2 P xs ys \<Longrightarrow> x \<in> set xs \<Longrightarrow> \<exists>y \<in> set ys. P x y"
  by (induction rule: list_all2_induct) auto

lemma entity_lookup_unknown:
  "map_of entities k = None \<Longrightarrow> entity_lookup entities k = unknown_entity"
  by (simp add: entity_lookup_def)

lemma entity_type_of_unknown: "map_of entities k = None \<Longrightarrow> entity_type_of entities k = []"
  by (simp add: entity_type_of_def)

subsection \<open>The loaders\<close>

lemma strip_Nil [simp]: "strip [] = []"
  by (simp add: strip_def)

lemma strip_decompose:
  "\<exists>a b. s = a @ strip s @ b \<and> (\<forall>c \<in> set a. is_space c) \<and> (\<forall>c \<in> set b. is_space c)"
proof -
  let ?t = "dropWhile is_space s"
  let ?a = "takeWhile is_space s"
  let ?b = "rev (takeWhile is_space (rev ?t))"
  have "rev (takeWhile is_space (rev ?t) @ dropWhile is_space (rev ?t)) = rev (rev ?t)"
    by (simp only: takeWhile_dropWhile_id)
  then have "rev (dropWhile is_space (rev ?t)) @ ?b = ?t"
    by (simp only: rev_append rev_rev_ident)
  then have t: "?t = strip s @ ?b" by (simp only: strip_def)
  have "s = ?a @ ?t" by simp
  then have 1: "s = ?a @ strip s @ ?b" using t by simp
  have 2: "\<forall>c \<in> set ?a. is_space c" by (auto dest: set_takeWhileD)
  have 3: "\<forall>c \<in> set ?b. is_space c" by (auto dest: set_takeWhileD)
  show ?thesis
    by (rule exI [where x = ?a], rule exI [where x = ?b]) (intro conjI 1 2 3)
qed

lemma last_dropWhile: "dropWhile P xs \<noteq> [] \<Longrightarrow> last (dropWhile P xs) = last xs"
  by (induction xs) (auto split: if_splits)

lemma strip_ends:
  assumes "strip s \<noteq> []"
  shows "\<not> is_space (hd (strip s)) \<and> \<not> is_space (last (strip s))"
proof -
  let ?t = "dropWhile is_space s"
  let ?u = "dropWhile is_space (rev ?t)"
  have u: "?u \<noteq> []" using assms by (simp add: strip_def)
  have t: "?t \<noteq> []"
  proof
    assume "?t = []"
    then have "?u = []" by (simp only: rev.simps dropWhile.simps)
    with u show False by (rule notE)
  qed
  have "last (strip s) = hd ?u" using u by (simp add: strip_def last_rev)
  moreover have "\<not> is_space (hd ?u)" using u by (rule hd_dropWhile)
  moreover have "hd (strip s) = last ?u" using u by (simp add: strip_def hd_rev)
  moreover have "last ?u = last (rev ?t)" using u by (rule last_dropWhile)
  moreover have "last (rev ?t) = hd ?t" using t by (simp add: last_rev)
  moreover have "\<not> is_space (hd ?t)" using t by (rule hd_dropWhile)
  ultimately show ?thesis by simp
qed

lemma row_get_absent: "r k = None \<Longrightarrow> row_get r k = Inr []"
  by (simp add: row_get_def)

lemma row_get_text: "r k \<noteq> Some None \<Longrightarrow> row_get r k = Inr (field_or_empty r k)"
  by (auto simp: row_get_def field_or_empty_def split: option.splits)

lemma row_item_text:
  "r k \<noteq> Some None \<Longrightarrow> r k \<noteq> None \<Longrightarrow> row_item r k = Inr (field_or_empty r k)"
  by (auto simp: row_item_def field_or_empty_def split: option.splits)

lemma row_item_missing: "r k = None \<Longrightarrow> row_item r k = Inl KeyError"
  by (simp add: row_item_def)

lemma entity_of_row_missing: "r ''entity_id'' = None \<Longrightarrow> entity_of_row r = Inl KeyError"
  by (simp add: entity_of_row_def row_item_missing)

lemma participant_of_row_missing:
  "r ''entity_id'' = None \<Longrightarrow> participant_of_row r = Inl KeyError"
  by (simp add: participant_of_row_def row_item_missing)

lemma entity_of_row_text:
  assumes "\<forall>k. r k \<noteq> Some None" and "r ''entity_id'' \<noteq> None"
  shows "entity_of_row r
     = Inr (field_or_empty r ''entity_id'',
            \<lparr>entity_type = field_or_empty r ''entity_type'',
             display_name = (if field_or_empty r ''team_name'' \<noteq> []
                             then field_or_empty r ''team_name''
                             else field_or_empty r ''institution_name'')\<rparr>)"
  using assms by (simp add: entity_of_row_def row_item_text row_get_text)

lemma participant_of_row_text:
  assumes "\<forall>k. r k \<noteq> Some None" and "r ''entity_id'' \<noteq> None"
  shows "participant_of_row r
     = Inr (field_or_empty r ''entity_id'',
            \<lparr>participant_id = field_or_empty r ''participant_id'',
             name = field_or_empty r ''name''\<rparr>)"
  using assms by (simp add: participant_of_row_def row_item_text row_get_text)

lemma entity_of_row_error:
  "\<forall>k. r k \<noteq> Some None \<Longrightarrow> entity_of_row r = Inl e \<Longrightarrow> e = KeyError"
  by (cases "r ''entity_id'' = None")
     (simp_all add: entity_of_row_missing entity_of_row_text)

lemma participant_of_row_error:
  "\<forall>k. r k \<noteq> Some None \<Longrightarrow> participant_of_row r = Inl e \<Longrightarrow> e = KeyError"
  by (cases "r ''entity_id'' = None")
     (simp_all add: participant_of_row_missing participant_of_row_text)

lemma load_entities_loop_fails:
  "\<exists>r \<in> set rs. r ''entity_id'' = None \<Longrightarrow> \<exists>e. load_entities_loop rs acc = Inl e"
proof (induction rs arbitrary: acc)
  case Nil
  then show ?case by simp
next
  case (Cons q qs)
  show ?case
  proof (cases "entity_of_row q")
    case (Inl e)
    then show ?thesis by simp
  next
    case (Inr x)
    then have "q ''entity_id'' \<noteq> None" using entity_of_row_missing [of q] by auto
    then have "\<exists>r \<in> set qs. r ''entity_id'' = None" using Cons.prems by auto
    from Cons.IH [OF this] Inr show ?thesis by (cases x) simp
  qed
qed

lemma load_participants_loop_fails:
  "\<exists>r \<in> set rs. r ''entity_id'' = None \<Longrightarrow> \<exists>e. load_participants_loop rs acc = Inl e"
proof (induction rs arbitrary: acc)
  case Nil
  then show ?case by simp
next
  case (Cons q qs)
  show ?case
  proof (cases "participant_of_row q")
    case (Inl e)
    then show ?thesis by simp
  next
    case (Inr x)
    then have "q ''entity_id'' \<noteq> None" using participant_of_row_missing [of q] by auto
    then have "\<exists>r \<in> set qs. r ''entity_id'' = None" using Cons.prems by auto
    from Cons.IH [OF this] Inr show ?thesis by (cases x) simp
  qed
qed

lemma load_entities_loop_error:
  "\<forall>q \<in> set rs. \<forall>k. q k \<noteq> Some None \<Longrightarrow> load_entities_loop rs acc = Inl e \<Longrightarrow> e = KeyError"
proof (induction rs arbitrary: acc)
  case Nil
  then show ?case by simp
next
  case (Cons q qs)
  show ?case
  proof (cases "entity_of_row q")
    case (Inl e')
    then show ?thesis using Cons.prems entity_of_row_error [of q e'] by simp
  next
    case (Inr x)
    then show ?thesis using Cons by (cases x) simp
  qed
qed

lemma load_participants_loop_error:
  "\<forall>q \<in> set rs. \<forall>k. q k \<noteq> Some None \<Longrightarrow> load_participants_loop rs acc = Inl e
     \<Longrightarrow> e = KeyError"
proof (induction rs arbitrary: acc)
  case Nil
  then show ?case by simp
next
  case (Cons q qs)
  show ?case
  proof (cases "participant_of_row q")
    case (Inl e')
    then show ?thesis using Cons.prems participant_of_row_error [of q e'] by simp
  next
    case (Inr x)
    then show ?thesis using Cons by (cases x) simp
  qed
qed

lemma load_entities_loop_succeeds:
  "\<forall>q \<in> set rs. (\<forall>k. q k \<noteq> Some None) \<and> q ''entity_id'' \<noteq> None
     \<Longrightarrow> \<exists>es. load_entities_loop rs acc = Inr es"
proof (induction rs arbitrary: acc)
  case Nil
  then show ?case by simp
next
  case (Cons q qs)
  have "\<forall>k. q k \<noteq> Some None" and "q ''entity_id'' \<noteq> None" using Cons.prems by simp_all
  from entity_of_row_text [OF this] Cons show ?case by simp
qed

lemma load_participants_loop_succeeds:
  "\<forall>q \<in> set rs. (\<forall>k. q k \<noteq> Some None) \<and> q ''entity_id'' \<noteq> None
     \<Longrightarrow> \<exists>d. load_participants_loop rs acc = Inr d"
proof (induction rs arbitrary: acc)
  case Nil
  then show ?case by simp
next
  case (Cons q qs)
  have "\<forall>k. q k \<noteq> Some None" and "q ''entity_id'' \<noteq> None" using Cons.prems by simp_all
  from participant_of_row_text [OF this] Cons show ?case by simp
qed

subsection \<open>The labels on the pages\<close>

lemma labels_on_append [simp]: "labels_on (xs @ ys) = labels_on xs @ labels_on ys"
  by (induction xs rule: labels_on.induct) simp_all

lemma labels_on_footer:
  "labels_on [f] = [] \<Longrightarrow> labels_on (f # x # xs) = labels_on (x # xs)"
  by (cases f) simp_all

lemma labels_on_footer_op [simp]: "labels_on [footer_op cfg t] = []"
  by (simp add: footer_op_def Let_def)

lemma labels_on_entity_footer_op [simp]: "labels_on [entity_footer_op cfg k info] = []"
  by (simp add: entity_footer_op_def Let_def)

lemma truncate_name_law:
  "(length n > 25 \<longrightarrow> truncate_name n = take 22 n @ ''...'' \<and> length (truncate_name n) = 25)
   \<and> (length n \<le> 25 \<longrightarrow> truncate_name n = n)"
  by (simp add: truncate_name_def max_name_length_def)

lemma draw_badge_label:
  "draw_badge cfg g p k c = Inr c2
     \<Longrightarrow> \<exists>b. c2 = draw (Badge p k b) c \<and> label b = truncate_name (name p)"
  by (auto simp: draw_badge_def Let_def split: if_splits)

lemma place_badges_labels:
  assumes "place_badges cfg g (draw f) ps (c, i) = Inr (c', i')" and "labels_on [f] = []"
  shows "concat (map labels_on (pages c' @ [current c']))
     = concat (map labels_on (pages c @ [current c]))
         @ map (\<lambda>p. (name p, truncate_name (name p))) ps"
  using assms(1)
proof (induction ps arbitrary: c i)
  case Nil
  then show ?case by simp
next
  case (Cons p ps)
  show ?case
  proof (cases "i \<ge> badges_per_page g")
    case True
    let ?c1 = "draw f (showPage c)"
    from Cons.prems True obtain c2 where
      d: "draw_badge cfg g p 0 ?c1 = Inr c2"
      and rest: "place_badges cfg g (draw f) ps (c2, 1) = Inr (c', i')"
      by (auto split: sum.splits)
    from draw_badge_label [OF d] obtain b where
      c2: "c2 = draw (Badge p 0 b) ?c1" and l: "label b = truncate_name (name p)" by blast
    from Cons.IH [OF rest] c2 l assms(2) show ?thesis by (simp add: labels_on_footer)
  next
    case False
    from Cons.prems False obtain c2 where
      d: "draw_badge cfg g p i c = Inr c2"
      and rest: "place_badges cfg g (draw f) ps (c2, i + 1) = Inr (c', i')"
      by (auto split: sum.splits)
    from draw_badge_label [OF d] obtain b where
      c2: "c2 = draw (Badge p i b) c" and l: "label b = truncate_name (name p)" by blast
    from Cons.IH [OF rest] c2 l show ?thesis by simp
  qed
qed

lemma grouped_loop_labels:
  assumes "grouped_loop cfg g pbe (c, i) = Inr (c', i')"
  shows "concat (map labels_on (pages c' @ [current c']))
     = concat (map labels_on (pages c @ [current c]))
         @ map (\<lambda>p. (name p, truncate_name (name p))) (concat (map snd pbe))"
  using assms
proof (induction pbe arbitrary: c i)
  case Nil
  then show ?case by simp
next
  case (Cons e pbe)
  let ?f = "footer_op cfg ''Private Delegates''"
  obtain k ps where e: "e = (k, ps)" by (cases e)
  from Cons.prems e obtain c1 i1 where
    p: "place_badges cfg g (draw ?f) ps (c, i) = Inr (c1, i1)"
    and rest: "grouped_loop cfg g pbe (c1, i1) = Inr (c', i')"
    by (auto simp: draw_footer_draw split: sum.splits)
  have 1: "concat (map labels_on (pages c1 @ [current c1]))
     = concat (map labels_on (pages c @ [current c]))
         @ map (\<lambda>p. (name p, truncate_name (name p))) ps"
    by (rule place_badges_labels [OF p]) simp
  from Cons.IH [OF rest] 1 e show ?case by simp
qed

lemma render_grouped_labels:
  assumes "render_grouped cfg g pbe new_canvas = Inr c"
  shows "concat (map labels_on (pages c))
     = map (\<lambda>p. (name p, truncate_name (name p))) (concat (map snd pbe))"
proof -
  let ?f = "footer_op cfg ''Private Delegates''"
  from assms obtain c' i' where
    loop: "grouped_loop cfg g pbe (draw ?f new_canvas, 0) = Inr (c', i')"
    and c: "c = showPage c'"
    by (auto simp: render_grouped_def draw_footer_draw split: sum.splits)
  from grouped_loop_labels [OF loop] c show ?thesis by (simp add: new_canvas_def)
qed

lemma render_per_entity_labels:
  assumes "render_per_entity cfg g entities pbe c = Inr c'" and "current c = []"
  shows "concat (map labels_on (pages c'))
     = concat (map labels_on (pages c))
         @ map (\<lambda>p. (name p, truncate_name (name p))) (concat (map snd pbe))"
  using assms
proof (induction pbe arbitrary: c)
  case Nil
  then show ?case by simp
next
  case (Cons e pbe)
  obtain k ps where e: "e = (k, ps)" by (cases e)
  let ?f = "entity_footer_op cfg k (entity_lookup entities k)"
  from Cons.prems(1) e obtain c1 i1 where
    p: "place_badges cfg g (draw ?f) ps (draw ?f c, 0) = Inr (c1, i1)"
    and rest: "render_per_entity cfg g entities pbe (showPage c1) = Inr c'"
    by (auto simp: draw_entity_footer_draw Let_def split: sum.splits)
  have 1: "concat (map labels_on (pages c1 @ [current c1]))
     = concat (map labels_on (pages (draw ?f c) @ [current (draw ?f c)]))
         @ map (\<lambda>p. (name p, truncate_name (name p))) ps"
    by (rule place_badges_labels [OF p]) simp
  have "concat (map labels_on (pages c'))
     = concat (map labels_on (pages (showPage c1)))
         @ map (\<lambda>p. (name p, truncate_name (name p))) (concat (map snd pbe))"
    by (rule Cons.IH [OF rest]) simp
  then show ?case using 1 e Cons.prems(2) by simp
qed

subsection \<open>The files that \<^verbatim>\<open>main\<close> writes\<close>

lemma files_say [simp]: "files (say m w) = files w"
  by (simp add: say_def)

lemma load_participants_loop_distinct:
  "load_participants_loop rs acc = Inr d \<Longrightarrow> distinct (map fst acc) \<Longrightarrow> distinct (map fst d)"
proof (induction rs arbitrary: acc)
  case Nil
  then show ?case by simp
next
  case (Cons r rs)
  from Cons.prems(1) obtain k p where
    rest: "load_participants_loop rs (append_to k p acc) = Inr d"
    by (auto split: sum.splits)
  have "distinct (map fst (append_to k p acc))"
    using Cons.prems(2) by (simp add: append_to_def distinct_update)
  from Cons.IH [OF rest this] show ?case .
qed

lemma render_grouped_current: "render_grouped cfg g pbe c = Inr c' \<Longrightarrow> current c' = []"
  by (auto simp: render_grouped_def split: sum.splits)

lemma render_grouped_total:
  assumes "cols g \<noteq> 0"
  shows "\<exists>c'. render_grouped cfg g pbe c = Inr c'"
proof -
  obtain st where
    "grouped_loop cfg g pbe (draw_footer cfg ''Private Delegates'' c, 0) = Inr st"
    using grouped_loop_total [OF assms] by blast
  then show ?thesis by (cases st) (simp add: render_grouped_def)
qed

lemma generate_grouped:
  assumes "pbe \<noteq> []" and "computeGeometry cfg = Inr g"
    and "render_grouped cfg g pbe new_canvas = Inr c"
  shows "\<exists>w'. generate_badges_pdf cfg entities pbe out title True w = Inr w'
     \<and> files w' = AList.update out (pages c) (files w)"
  using assms render_grouped_current [OF assms(3)]
  by (simp add: generate_badges_pdf_def save_def)

lemma generate_per_entity:
  assumes "pbe \<noteq> []" and "computeGeometry cfg = Inr g"
    and "render_per_entity cfg g entities pbe new_canvas = Inr c"
  shows "\<exists>w'. generate_badges_pdf cfg entities pbe out title False w = Inr w'
     \<and> files w' = AList.update out (pages c) (files w)"
proof -
  have "current new_canvas = []" by (simp add: new_canvas_def)
  from render_per_entity_pages [OF assms(3) this] have "current c = []" by simp
  then show ?thesis using assms by (simp add: generate_badges_pdf_def save_def)
qed

lemma generate_empty:
  "\<exists>w'. generate_badges_pdf cfg entities [] out title grouped w = Inr w' \<and> files w' = files w"
  by (simp add: generate_badges_pdf_def)

lemma main_unfold:
  assumes "load_entities ers = Inr entities" and "load_participants prs = Inr all_participants"
    and "classify_entities entities ([], []) = (pe, de)"
    and "split_participants entities all_participants ([], []) = (pp, dp)"
    and "generate_badges_pdf cfg entities pp ''badges_private_delegates.pdf''
           ''Private Delegates PDF'' True
           (say (Line ''Generating PDFs...'')
             (say (FoundDelegation (length de))
               (say (FoundPrivate (length pe)) (say (Line ''Loading data...'') w)))) = Inr w4"
    and "generate_badges_pdf cfg entities dp ''badges_delegations.pdf''
           ''Delegations PDF'' False w4 = Inr w5"
  shows "main cfg ers prs w = Inr (say (Line ''All PDFs generated successfully!'') w5)"
  unfolding main_def Let_def using assms by simp

lemma main_files:
  assumes "load_entities ers = Inr entities" and "load_participants prs = Inr all_participants"
    and "split_participants entities all_participants ([], []) = (pp, dp)"
    and "computeGeometry cfg = Inr g" and "cols g \<noteq> 0" and "dp \<noteq> []"
  shows "\<exists>w' c2. main cfg ers prs w = Inr w'
     \<and> render_per_entity cfg g entities dp new_canvas = Inr c2
     \<and> map_of (files w') ''badges_delegations.pdf'' = Some (pages c2)
     \<and> (pp = [] \<longrightarrow> map_of (files w') ''badges_private_delegates.pdf''
                      = map_of (files w) ''badges_private_delegates.pdf'')
     \<and> (pp \<noteq> [] \<longrightarrow> (\<exists>c1. render_grouped cfg g pp new_canvas = Inr c1
            \<and> map_of (files w') ''badges_private_delegates.pdf'' = Some (pages c1)))"
proof -
  let ?priv = "''badges_private_delegates.pdf''"
  let ?dele = "''badges_delegations.pdf''"
  obtain pe de where cl: "classify_entities entities ([], []) = (pe, de)"
    by (cases "classify_entities entities ([], [])")
  let ?w1 = "say (Line ''Loading data...'') w"
  let ?w3 = "say (Line ''Generating PDFs...'')
               (say (FoundDelegation (length de)) (say (FoundPrivate (length pe)) ?w1))"
  obtain c2 where r2: "render_per_entity cfg g entities dp new_canvas = Inr c2"
    using render_per_entity_total [OF assms(5)] by blast
  have ne: "?dele \<noteq> ?priv" by simp
  have first: "\<exists>w4. generate_badges_pdf cfg entities pp ?priv ''Private Delegates PDF'' True ?w3
        = Inr w4
      \<and> (pp = [] \<longrightarrow> files w4 = files w)
      \<and> (pp \<noteq> [] \<longrightarrow> (\<exists>c1. render_grouped cfg g pp new_canvas = Inr c1
              \<and> files w4 = AList.update ?priv (pages c1) (files w)))"
  proof (cases "pp = []")
    case True
    then show ?thesis by (simp add: generate_badges_pdf_def)
  next
    case False
    obtain c1 where r1: "render_grouped cfg g pp new_canvas = Inr c1"
      using render_grouped_total [OF assms(5)] by blast
    from generate_grouped [OF False assms(4) r1, of entities ?priv "''Private Delegates PDF''" ?w3]
    obtain w4 where
      "generate_badges_pdf cfg entities pp ?priv ''Private Delegates PDF'' True ?w3 = Inr w4"
      "files w4 = AList.update ?priv (pages c1) (files ?w3)"
      by (elim exE conjE)
    then have "generate_badges_pdf cfg entities pp ?priv ''Private Delegates PDF'' True ?w3
        = Inr w4
      \<and> (pp = [] \<longrightarrow> files w4 = files w)
      \<and> (pp \<noteq> [] \<longrightarrow> (\<exists>c1. render_grouped cfg g pp new_canvas = Inr c1
              \<and> files w4 = AList.update ?priv (pages c1) (files w)))"
      using False r1 by simp
    then show ?thesis by (rule exI [where x = w4])
  qed
  then obtain w4 where
    g14: "generate_badges_pdf cfg entities pp ?priv ''Private Delegates PDF'' True ?w3 = Inr w4
      \<and> (pp = [] \<longrightarrow> files w4 = files w)
      \<and> (pp \<noteq> [] \<longrightarrow> (\<exists>c1. render_grouped cfg g pp new_canvas = Inr c1
              \<and> files w4 = AList.update ?priv (pages c1) (files w)))" ..
  note g1 = g14 [THEN conjunct1] and f1 = g14 [THEN conjunct2, THEN conjunct1]
    and f2 = g14 [THEN conjunct2, THEN conjunct2]
  from generate_per_entity [OF assms(6,4) r2, of ?dele "''Delegations PDF''" w4] obtain w5 where
    g2: "generate_badges_pdf cfg entities dp ?dele ''Delegations PDF'' False w4 = Inr w5"
    and f5: "files w5 = AList.update ?dele (pages c2) (files w4)"
    by (elim exE conjE)
  let ?w' = "say (Line ''All PDFs generated successfully!'') w5"
  have m: "main cfg ers prs w = Inr ?w'"
    by (rule main_unfold [OF assms(1,2) cl assms(3) g1 g2])
  have d: "map_of (files ?w') ?dele = Some (pages c2)"
    using f5 by (simp add: update_conv')
  have p: "map_of (files ?w') ?priv = map_of (files w4) ?priv"
    using f5 ne by (simp add: update_conv')
  have p1: "pp = [] \<longrightarrow> map_of (files ?w') ?priv = map_of (files w) ?priv"
    using p f1 by simp
  have p2: "pp \<noteq> [] \<longrightarrow> (\<exists>c1. render_grouped cfg g pp new_canvas = Inr c1
            \<and> map_of (files ?w') ?priv = Some (pages c1))"
  proof
    assume "pp \<noteq> []"
    with f2 obtain c1 where c1: "render_grouped cfg g pp new_canvas = Inr c1"
      "files w4 = AList.update ?priv (pages c1) (files w)"
      by (elim impE exE conjE)
    have "map_of (files ?w') ?priv = Some (pages c1)"
      using p c1(2) by (simp add: update_conv')
    with c1(1) show "\<exists>c1. render_grouped cfg g pp new_canvas = Inr c1
            \<and> map_of (files ?w') ?priv = Some (pages c1)"
      by (intro exI conjI)
  qed
  show ?thesis
    by (rule exI [where x = ?w'], rule exI [where x = c2]) (intro conjI m r2 d p1 p2)
qed

lemma render_grouped_badges:
  assumes "render_grouped cfg g pbe new_canvas = Inr c"
  shows "concat (map badges_on (pages c)) = concat (map snd pbe)"
proof -
  let ?f = "footer_op cfg ''Private Delegates''"
  from assms obtain c' i' where
    loop: "grouped_loop cfg g pbe (draw ?f new_canvas, 0) = Inr (c', i')"
    and c: "c = showPage c'"
    by (auto simp: render_grouped_def draw_footer_draw split: sum.splits)
  have start: "footers_on (current (draw ?f new_canvas)) = [?f]"
    by (simp add: new_canvas_def)
  from grouped_loop_pages [OF loop start] obtain news where
    n: "pages c' = pages (draw ?f new_canvas) @ news"
       "concat (map badges_on (news @ [current c']))
          = badges_on (current (draw ?f new_canvas)) @ concat (map snd pbe)"
    by blast
  then show ?thesis using c by (simp add: new_canvas_def)
qed

lemma unknown_entity_split_render:
  assumes "map_of entities eid = None" and "distinct (map fst all_participants)"
    and "(eid, ps) \<in> set all_participants"
  shows "\<exists>pp dp. split_participants entities all_participants ([], []) = (pp, dp)
     \<and> (eid, ps) \<in> set dp \<and> eid \<notin> fst ` set pp
     \<and> (cols g \<noteq> 0 \<longrightarrow> (\<exists>c. render_per_entity cfg g entities dp new_canvas = Inr c))
     \<and> (\<forall>c. render_per_entity cfg g entities dp new_canvas = Inr c \<longrightarrow>
          (\<exists>grp. grp \<noteq> [] \<and> set grp \<subseteq> set (pages c)
              \<and> (\<forall>pg \<in> set grp. footers_on pg
                    = [EntityFooter
                         \<lparr>at_x = page_width cfg / 2, at_y = margin cfg + 5 * mm, text_of = eid\<rparr>
                         \<lparr>at_x = page_width cfg / 2, at_y = margin cfg,
                          text_of = ''Unknown Delegation''\<rparr>])
              \<and> concat (map badges_on grp) = ps)
          \<and> (\<forall>pg \<in> set (pages c). \<forall>a b.
                footers_on pg = [EntityFooter a b] \<and> text_of a = eid
                  \<longrightarrow> text_of b = ''Unknown Delegation''))"
proof -
  let ?P = "\<lambda>e :: string \<times> participant list.
              is_private_delegate (entity_type_of entities (fst e))"
  let ?pp = "filter ?P all_participants"
  let ?dp = "filter (\<lambda>e. \<not> ?P e) all_participants"
  let ?foot = "EntityFooter
                 \<lparr>at_x = page_width cfg / 2, at_y = margin cfg + 5 * mm, text_of = eid\<rparr>
                 \<lparr>at_x = page_width cfg / 2, at_y = margin cfg,
                  text_of = ''Unknown Delegation''\<rparr>"
  have s: "split_participants entities all_participants ([], []) = (?pp, ?dp)"
    using split_participants_filter [OF assms(2), of "[]" "[]"] by simp
  have np: "\<not> is_private_delegate (entity_type_of entities eid)"
    using assms(1) by (simp add: entity_type_of_unknown not_private_empty)
  have 1: "(eid, ps) \<in> set ?dp" using assms(3) np by simp
  have 2: "eid \<notin> fst ` set ?pp" using np by auto
  have foot: "entity_footer_op cfg eid (entity_lookup entities eid) = ?foot"
    using assms(1)
    by (simp add: entity_footer_op_def entity_lookup_unknown unknown_entity_def Let_def)
  have 3: "cols g \<noteq> 0 \<longrightarrow> (\<exists>c. render_per_entity cfg g entities ?dp new_canvas = Inr c)"
    using render_per_entity_total by blast
  have 4: "(\<exists>grp. grp \<noteq> [] \<and> set grp \<subseteq> set (pages c)
              \<and> (\<forall>pg \<in> set grp. footers_on pg = [?foot])
              \<and> concat (map badges_on grp) = ps)
          \<and> (\<forall>pg \<in> set (pages c). \<forall>a b.
                footers_on pg = [EntityFooter a b] \<and> text_of a = eid
                  \<longrightarrow> text_of b = ''Unknown Delegation'')"
    if r: "render_per_entity cfg g entities ?dp new_canvas = Inr c" for c
  proof -
    have nc: "current new_canvas = []" by (simp add: new_canvas_def)
    from render_per_entity_pages [OF r nc] obtain groups where
      pg: "pages c = pages new_canvas @ concat groups"
      and grp: "list_all2 (\<lambda>e grp. grp \<noteq> []
                    \<and> (\<forall>pg \<in> set grp. footers_on pg
                           = [entity_footer_op cfg (fst e) (entity_lookup entities (fst e))])
                    \<and> concat (map badges_on grp) = snd e) ?dp groups"
      by blast
    have pg': "pages c = concat groups" using pg by (simp add: new_canvas_def)
    from list_all2_left_member [OF grp 1] obtain gr where
      gr: "gr \<in> set groups" "gr \<noteq> []"
          "\<forall>pg \<in> set gr. footers_on pg = [entity_footer_op cfg eid (entity_lookup entities eid)]"
          "concat (map badges_on gr) = ps"
      by auto
    have sub: "set gr \<subseteq> set (pages c)" using gr(1) pg' by auto
    have a: "\<exists>grp. grp \<noteq> [] \<and> set grp \<subseteq> set (pages c)
              \<and> (\<forall>pg \<in> set grp. footers_on pg = [?foot])
              \<and> concat (map badges_on grp) = ps"
      using gr(2,3,4) sub foot by (intro exI [where x = gr]) simp
    have b: "\<forall>pg \<in> set (pages c). \<forall>a b.
                footers_on pg = [EntityFooter a b] \<and> text_of a = eid
                  \<longrightarrow> text_of b = ''Unknown Delegation''"
    proof (intro ballI allI impI)
      fix p a b
      assume p: "p \<in> set (pages c)"
        and f: "footers_on p = [EntityFooter a b] \<and> text_of a = eid"
      from p pg' obtain g2 where g2: "g2 \<in> set groups" "p \<in> set g2" by auto
      from list_all2_right_member [OF grp g2(1)] obtain e :: "string \<times> participant list"
        where e: "\<forall>pg \<in> set g2. footers_on pg
              = [entity_footer_op cfg (fst e) (entity_lookup entities (fst e))]"
        by blast
      from e g2(2) f have eq: "EntityFooter a b
          = entity_footer_op cfg (fst e) (entity_lookup entities (fst e))"
        by simp
      then have "fst e = eid" using f by (simp add: entity_footer_op_def Let_def)
      then have "EntityFooter a b = ?foot" using eq foot by simp
      then show "text_of b = ''Unknown Delegation''" by simp
    qed
    show ?thesis using a b by (rule conjI)
  qed
  show ?thesis
    by (rule exI [where x = ?pp], rule exI [where x = ?dp]) (intro conjI s 1 2 3 allI impI 4)
qed

subsection \<open>The grid\<close>

text \<open>
  C6. The geometry is a function of the page size, the margin, the badge size and
  the footer band. For a badge of non-zero width and height (the quotients below
  are taken by them) it yields: the usable width and height; the columns and rows
  as the floors of the quotients of usable size by badge size; their product as
  the badges per page; and as spacing the leftover divided by the count plus one
  when the count exceeds one, zero otherwise.
\<close>

theorem computeGeometry_formulas:
  assumes "badge_width cfg \<noteq> 0" and "badge_height cfg \<noteq> 0"
  shows "\<exists>g. computeGeometry cfg = Inr g
     \<and> usable_width g = page_width cfg - 2 * margin cfg
     \<and> usable_height g = page_height cfg - 2 * margin cfg - footer_height cfg
     \<and> cols g = \<lfloor>usable_width g / badge_width cfg\<rfloor>
     \<and> rows g = \<lfloor>usable_height g / badge_height cfg\<rfloor>
     \<and> badges_per_page g = cols g * rows g
     \<and> h_spacing g = (if cols g > 1
          then (usable_width g - of_int (cols g) * badge_width cfg) / (of_int (cols g) + 1) else 0)
     \<and> v_spacing g = (if rows g > 1
          then (usable_height g - of_int (rows g) * badge_height cfg) / (of_int (rows g) + 1) else 0)"
  using assms by (simp add: computeGeometry_def floordiv_def Let_def)

text \<open>On the constants of the source: 4 columns, 5 rows, 20 badges on a page,
  6 mm between columns and 2 mm between rows.\<close>

theorem computeGeometry_formulas_witness:
  "badge_width default_config \<noteq> 0 \<and> badge_height default_config \<noteq> 0
   \<and> (\<exists>g. computeGeometry default_config = Inr g
        \<and> usable_width g = 190 * mm \<and> usable_height g = 262 * mm
        \<and> cols g = 4 \<and> rows g = 5 \<and> badges_per_page g = 20
        \<and> h_spacing g = 6 * mm \<and> v_spacing g = 2 * mm)"
proof -
  have w: "badge_width default_config \<noteq> 0" and h: "badge_height default_config \<noteq> 0"
    by (simp_all add: badge_width_def badge_height_def default_config_def mm_def)
  from computeGeometry_formulas [OF w h] obtain g where g: "computeGeometry default_config = Inr g"
     "usable_width g = page_width default_config - 2 * margin default_config"
     "usable_height g =
        page_height default_config - 2 * margin default_config - footer_height default_config"
     "cols g = \<lfloor>usable_width g / badge_width default_config\<rfloor>"
     "rows g = \<lfloor>usable_height g / badge_height default_config\<rfloor>"
     "badges_per_page g = cols g * rows g"
     "h_spacing g = (if cols g > 1
          then (usable_width g - of_int (cols g) * badge_width default_config)
                 / (of_int (cols g) + 1) else 0)"
     "v_spacing g = (if rows g > 1
          then (usable_height g - of_int (rows g) * badge_height default_config)
                 / (of_int (rows g) + 1) else 0)"
    by blast
  have uw: "usable_width g = 190 * mm" and uh: "usable_height g = 262 * mm"
    using g(2,3) by (simp_all add: default_config_def A4_def)
  have c: "cols g = 4"
    using g(4) uw by (simp add: badge_width_def default_config_def mm_def floor_eq_iff)
  have r: "rows g = 5"
    using g(5) uh by (simp add: badge_height_def default_config_def mm_def floor_eq_iff)
  have "h_spacing g = 6 * mm"
    using g(7) c uw by (simp add: badge_width_def default_config_def mm_def)
  moreover have "v_spacing g = 2 * mm"
    using g(8) r uh by (simp add: badge_height_def default_config_def mm_def)
  ultimately show ?thesis using w h g(1,6) uw uh c r by simp
qed

subsection \<open>Pagination of the grouped stream\<close>

text \<open>
  C3 (amended). Grouped policy, room for at least one badge on a page, at least
  one participant in the mapping. The rendering returns; its pages hold the
  badges of all participants in the order of the mapping; every page but the
  last holds exactly \<open>badges_per_page\<close> badges, and the last holds
  \<open>total mod badges_per_page\<close> badges, or \<open>badges_per_page\<close> when that is zero.
  One pass of the loop closes the open page exactly when the badge index has
  reached \<open>badges_per_page\<close>.
\<close>

theorem grouped_pagination:
  assumes "computeGeometry cfg = Inr g" and "0 < badges_per_page g"
    and "concat (map snd pbe) \<noteq> []"
  shows "\<exists>c. render_grouped cfg g pbe new_canvas = Inr c
     \<and> current c = [] \<and> pages c \<noteq> []
     \<and> concat (map badges_on (pages c)) = concat (map snd pbe)
     \<and> (\<forall>pg \<in> set (butlast (pages c)). int (length (badges_on pg)) = badges_per_page g)
     \<and> int (length (badges_on (last (pages c))))
         = (if int (length (concat (map snd pbe))) mod badges_per_page g = 0
            then badges_per_page g
            else int (length (concat (map snd pbe))) mod badges_per_page g)
     \<and> (\<forall>c0 i p. i \<le> badges_per_page g \<longrightarrow>
           (\<exists>c1 i1. place_badges cfg g (draw_footer cfg ''Private Delegates'') [p] (c0, i)
                       = Inr (c1, i1)
              \<and> pages c1 = (if i = badges_per_page g then pages c0 @ [current c0]
                             else pages c0)))"
proof -
  let ?f = "footer_op cfg ''Private Delegates''"
  let ?b = "badges_per_page g"
  let ?all = "concat (map snd pbe)"
  have cols: "cols g \<noteq> 0" using computeGeometry_bpp [OF assms(1)] assms(2) by auto
  obtain c' i' where
    loop: "grouped_loop cfg g pbe (draw ?f new_canvas, 0) = Inr (c', i')"
    using grouped_loop_total [OF cols] by (metis surj_pair)
  have r: "render_grouped cfg g pbe new_canvas = Inr (showPage c')"
    using loop by (simp add: render_grouped_def draw_footer_draw)
  have start: "footers_on (current (draw ?f new_canvas)) = [?f]"
    by (simp add: new_canvas_def)
  from grouped_loop_pages [OF loop start] obtain news where
    n: "pages c' = pages (draw ?f new_canvas) @ news"
       "concat (map badges_on (news @ [current c'])) = badges_on (current (draw ?f new_canvas)) @ ?all"
    by blast
  have all: "concat (map badges_on (pages c' @ [current c'])) = ?all"
    using n by (simp add: new_canvas_def)
  have inv: "0 \<le> i' \<and> i' \<le> ?b \<and> int (length (badges_on (current c'))) = i'
       \<and> (\<forall>pg \<in> set (pages c'). int (length (badges_on pg)) = ?b)
       \<and> (i' = 0 \<longrightarrow> pages c' = [])"
    using assms(2) by (intro grouped_loop_count [OF loop]) (simp_all add: new_canvas_def)
  have full: "int (length (concat (map badges_on (pages c')))) = int (length (pages c')) * ?b"
    using inv by (intro length_concat_full) simp
  have "int (length ?all)
      = int (length (concat (map badges_on (pages c')))) + int (length (badges_on (current c')))"
    using arg_cong [OF all, of length] by simp
  then have total: "int (length ?all) = int (length (pages c')) * ?b + i'"
    using full inv by simp
  have pos: "0 < i'"
  proof (rule ccontr)
    assume "\<not> 0 < i'"
    then have "i' = 0" using inv by simp
    then have "int (length ?all) = 0" using total inv by simp
    then show False using assms(3) by simp
  qed
  have lastc: "i' = (if int (length ?all) mod ?b = 0 then ?b else int (length ?all) mod ?b)"
    using total pos inv by (intro last_page_count [where k = "int (length (pages c'))"]) simp_all
  have step: "\<forall>c0 i p. i \<le> ?b \<longrightarrow>
           (\<exists>c1 i1. place_badges cfg g (draw_footer cfg ''Private Delegates'') [p] (c0, i)
                       = Inr (c1, i1)
              \<and> pages c1 = (if i = ?b then pages c0 @ [current c0] else pages c0))"
  proof (intro allI impI)
    fix c0 :: canvas and i :: int and p :: participant
    assume i: "i \<le> ?b"
    show "\<exists>c1 i1. place_badges cfg g (draw_footer cfg ''Private Delegates'') [p] (c0, i)
                       = Inr (c1, i1)
              \<and> pages c1 = (if i = ?b then pages c0 @ [current c0] else pages c0)"
    proof (cases "i = ?b")
      case True
      obtain b where "draw_badge cfg g p 0 (draw ?f (showPage c0))
          = Inr (draw (Badge p 0 b) (draw ?f (showPage c0)))"
        using draw_badge_ok [OF cols] by blast
      then show ?thesis using True by (simp add: draw_footer_draw)
    next
      case False
      obtain b where "draw_badge cfg g p i c0 = Inr (draw (Badge p i b) c0)"
        using draw_badge_ok [OF cols] by blast
      then show ?thesis using False i by (simp add: draw_footer_draw)
    qed
  qed
  have "current (showPage c') = []" by simp
  moreover have "pages (showPage c') \<noteq> []" by simp
  moreover have "concat (map badges_on (pages (showPage c'))) = ?all" using all by simp
  moreover have "\<forall>pg \<in> set (butlast (pages (showPage c'))). int (length (badges_on pg)) = ?b"
    using inv by simp
  moreover have "int (length (badges_on (last (pages (showPage c')))))
      = (if int (length ?all) mod ?b = 0 then ?b else int (length ?all) mod ?b)"
    using lastc inv by simp
  ultimately show ?thesis using r step by blast
qed


theorem grouped_pagination_witness:
  "computeGeometry default_config = Inr default_geometry
   \<and> 0 < badges_per_page default_geometry
   \<and> concat (map snd [(''E1'', replicate 21 \<lparr>participant_id = ''P1'', name = ''Ann''\<rparr>)]) \<noteq> []
   \<and> (\<exists>c. render_grouped default_config default_geometry
              [(''E1'', replicate 21 \<lparr>participant_id = ''P1'', name = ''Ann''\<rparr>)] new_canvas = Inr c
          \<and> current c = [] \<and> pages c \<noteq> []
          \<and> concat (map badges_on (pages c))
               = replicate 21 \<lparr>participant_id = ''P1'', name = ''Ann''\<rparr>
          \<and> (\<forall>pg \<in> set (butlast (pages c)). int (length (badges_on pg)) = 20)
          \<and> int (length (badges_on (last (pages c)))) = 1)"
proof -
  let ?pbe = "[(''E1'', replicate 21 \<lparr>participant_id = ''P1'', name = ''Ann''\<rparr>)]"
  have b: "badges_per_page default_geometry = 20" by (simp add: default_geometry_def)
  have h2: "0 < badges_per_page default_geometry" using b by simp
  have h3: "concat (map snd ?pbe) \<noteq> []" by simp
  show ?thesis
    using grouped_pagination [OF computeGeometry_default h2 h3] computeGeometry_default h2 b
    by (simp del: place_badges.simps) blast
qed

text \<open>
  The claim as it is written fails on a mapping that is not empty but holds no
  participant: the document is one page with the footer and no badge, where the
  claim expects a last page of \<open>badges_per_page\<close> badges (zero is evenly divisible).
\<close>

theorem grouped_pagination_counterexample:
  "[(''E1'', [])] \<noteq> ([] :: (string \<times> participant list) list)
   \<and> computeGeometry default_config = Inr default_geometry
   \<and> 0 < badges_per_page default_geometry
   \<and> int (length (concat (map snd [(''E1'', [] :: participant list)])))
        mod badges_per_page default_geometry = 0
   \<and> render_grouped default_config default_geometry [(''E1'', [])] new_canvas
        = Inr \<lparr>pages = [[footer_op default_config ''Private Delegates'']], current = []\<rparr>
   \<and> int (length (badges_on (last [[footer_op default_config ''Private Delegates'']])))
        \<noteq> badges_per_page default_geometry"
  using computeGeometry_default
  by (simp add: render_grouped_def draw_footer_def draw_def new_canvas_def showPage_def
      default_geometry_def)

subsection \<open>Pages of the stream with one entity to a page\<close>

text \<open>
  C4. Per-entity policy. On a grid with a column the rendering returns. Whenever
  it returns, no page is left open, and the pages of the document fall into
  consecutive groups, one group for each entity of the mapping in its order: a
  group has at least one page (the page break after an entity is forced), every
  page of the group carries the footer of that entity and no other (the footer
  is redrawn on continuation pages), and the badges of the group are the
  participants of that entity in their order. So every page belongs to one
  entity, and when no participant is listed under two entities, no page holds
  badges of participants of two different entities.
\<close>

theorem per_entity_isolation:
  "(cols g \<noteq> 0 \<longrightarrow> (\<exists>c. render_per_entity cfg g entities pbe new_canvas = Inr c))
   \<and> (\<forall>c. render_per_entity cfg g entities pbe new_canvas = Inr c \<longrightarrow>
        current c = []
        \<and> (\<exists>groups. pages c = concat groups
              \<and> list_all2 (\<lambda>e grp. grp \<noteq> []
                    \<and> (\<forall>pg \<in> set grp. footers_on pg
                           = [entity_footer_op cfg (fst e) (entity_lookup entities (fst e))])
                    \<and> concat (map badges_on grp) = snd e) pbe groups)
        \<and> (\<forall>pg \<in> set (pages c). \<exists>e \<in> set pbe.
              footers_on pg = [entity_footer_op cfg (fst e) (entity_lookup entities (fst e))]
              \<and> set (badges_on pg) \<subseteq> set (snd e))
        \<and> ((\<forall>e1 \<in> set pbe. \<forall>e2 \<in> set pbe. e1 \<noteq> e2 \<longrightarrow> set (snd e1) \<inter> set (snd e2) = {})
             \<longrightarrow> (\<forall>pg \<in> set (pages c). \<forall>e1 \<in> set pbe. \<forall>e2 \<in> set pbe. e1 \<noteq> e2 \<longrightarrow>
                    \<not> (set (badges_on pg) \<inter> set (snd e1) \<noteq> {}
                       \<and> set (badges_on pg) \<inter> set (snd e2) \<noteq> {}))))"
proof (intro conjI impI allI)
  assume "cols g \<noteq> 0"
  then show "\<exists>c. render_per_entity cfg g entities pbe new_canvas = Inr c"
    by (rule render_per_entity_total)
next
  fix c
  assume r: "render_per_entity cfg g entities pbe new_canvas = Inr c"
  have nc: "current new_canvas = []" by (simp add: new_canvas_def)
  from render_per_entity_pages [OF r nc] obtain groups where
    cur: "current c = []"
    and pg: "pages c = pages new_canvas @ concat groups"
    and grp: "list_all2 (\<lambda>e grp. grp \<noteq> []
                    \<and> (\<forall>pg \<in> set grp. footers_on pg
                           = [entity_footer_op cfg (fst e) (entity_lookup entities (fst e))])
                    \<and> concat (map badges_on grp) = snd e) pbe groups"
    by blast
  have pg': "pages c = concat groups" using pg by (simp add: new_canvas_def)
  show "current c = []" by (rule cur)
  show "\<exists>groups. pages c = concat groups
              \<and> list_all2 (\<lambda>e grp. grp \<noteq> []
                    \<and> (\<forall>pg \<in> set grp. footers_on pg
                           = [entity_footer_op cfg (fst e) (entity_lookup entities (fst e))])
                    \<and> concat (map badges_on grp) = snd e) pbe groups"
    using pg' grp by blast
  have own: "\<exists>e \<in> set pbe.
              footers_on p = [entity_footer_op cfg (fst e) (entity_lookup entities (fst e))]
              \<and> set (badges_on p) \<subseteq> set (snd e)" if p: "p \<in> set (pages c)" for p
  proof -
    from p pg' obtain gr where gr: "gr \<in> set groups" "p \<in> set gr" by auto
    from list_all2_right_member [OF grp gr(1)] obtain e where
      e: "e \<in> set pbe"
         "\<forall>pg \<in> set gr. footers_on pg
            = [entity_footer_op cfg (fst e) (entity_lookup entities (fst e))]"
         "concat (map badges_on gr) = snd e"
      by blast
    have "set (badges_on p) \<subseteq> set (concat (map badges_on gr))" using gr(2) by auto
    then show ?thesis using e gr(2) by auto
  qed
  then show "\<forall>pg \<in> set (pages c). \<exists>e \<in> set pbe.
              footers_on pg = [entity_footer_op cfg (fst e) (entity_lookup entities (fst e))]
              \<and> set (badges_on pg) \<subseteq> set (snd e)"
    by blast
  show "\<forall>pg \<in> set (pages c). \<forall>e1 \<in> set pbe. \<forall>e2 \<in> set pbe. e1 \<noteq> e2 \<longrightarrow>
                    \<not> (set (badges_on pg) \<inter> set (snd e1) \<noteq> {}
                       \<and> set (badges_on pg) \<inter> set (snd e2) \<noteq> {})"
    if dis: "\<forall>e1 \<in> set pbe. \<forall>e2 \<in> set pbe. e1 \<noteq> e2 \<longrightarrow> set (snd e1) \<inter> set (snd e2) = {}"
  proof (intro ballI impI notI)
    fix p e1 e2
    assume p: "p \<in> set (pages c)" and e1: "e1 \<in> set pbe" and e2: "e2 \<in> set pbe"
      and ne: "e1 \<noteq> e2"
      and both: "set (badges_on p) \<inter> set (snd e1) \<noteq> {}
                 \<and> set (badges_on p) \<inter> set (snd e2) \<noteq> {}"
    from own [OF p] obtain e where e: "e \<in> set pbe" "set (badges_on p) \<subseteq> set (snd e)"
      by blast
    have "set (snd e) \<inter> set (snd e1) \<noteq> {}" using both e(2) by blast
    then have "e = e1" using dis e(1) e1 by blast
    moreover have "set (snd e) \<inter> set (snd e2) \<noteq> {}" using both e(2) by blast
    then have "e = e2" using dis e(1) e2 by blast
    ultimately show False using ne by simp
  qed
qed

theorem per_entity_isolation_witness:
  "cols default_geometry \<noteq> 0
   \<and> set [\<lparr>participant_id = ''P1'', name = ''Ann''\<rparr>]
         \<inter> set [\<lparr>participant_id = ''P2'', name = ''Bob''\<rparr>] = {}
   \<and> (\<exists>c. render_per_entity default_config default_geometry []
              [(''E1'', [\<lparr>participant_id = ''P1'', name = ''Ann''\<rparr>]),
               (''E2'', [\<lparr>participant_id = ''P2'', name = ''Bob''\<rparr>])] new_canvas = Inr c
          \<and> current c = []
          \<and> (\<forall>pg \<in> set (pages c).
                \<not> (set (badges_on pg) \<inter> {\<lparr>participant_id = ''P1'', name = ''Ann''\<rparr>} \<noteq> {}
                   \<and> set (badges_on pg) \<inter> {\<lparr>participant_id = ''P2'', name = ''Bob''\<rparr>} \<noteq> {})))"
proof -
  let ?pbe = "[(''E1'', [\<lparr>participant_id = ''P1'', name = ''Ann''\<rparr>]),
               (''E2'', [\<lparr>participant_id = ''P2'', name = ''Bob''\<rparr>])]"
  have c0: "cols default_geometry \<noteq> 0" by (simp add: default_geometry_def)
  have dis: "\<forall>e1 \<in> set ?pbe. \<forall>e2 \<in> set ?pbe. e1 \<noteq> e2 \<longrightarrow> set (snd e1) \<inter> set (snd e2) = {}"
    by simp
  note t = per_entity_isolation [of default_geometry default_config "[]" ?pbe]
  from t c0 obtain c where
    r: "render_per_entity default_config default_geometry [] ?pbe new_canvas = Inr c"
    by blast
  from t r have cur: "current c = []" by blast
  from t r dis have iso: "\<forall>pg \<in> set (pages c). \<forall>e1 \<in> set ?pbe. \<forall>e2 \<in> set ?pbe. e1 \<noteq> e2 \<longrightarrow>
                    \<not> (set (badges_on pg) \<inter> set (snd e1) \<noteq> {}
                       \<and> set (badges_on pg) \<inter> set (snd e2) \<noteq> {})"
    by blast
  have "\<forall>pg \<in> set (pages c).
                \<not> (set (badges_on pg) \<inter> {\<lparr>participant_id = ''P1'', name = ''Ann''\<rparr>} \<noteq> {}
                   \<and> set (badges_on pg) \<inter> {\<lparr>participant_id = ''P2'', name = ''Bob''\<rparr>} \<noteq> {})"
    using iso by simp
  then show ?thesis using c0 r cur by auto
qed

subsection \<open>A badge that does not fit the page\<close>

text \<open>
  C1 (amended). For a badge of non-zero width and height the geometry is computed
  without a division error, and it gives zero badges per page whenever it has no
  column or no row. The compositor has no branch for that case. Without a column,
  \<^verbatim>\<open>badge_index % cols\<close> raises \<^verbatim>\<open>ZeroDivisionError\<close> at the first badge, under
  either policy, and no file is written. With a column but no row, the page is
  closed before every badge and the badge is drawn on the next page: the first
  page of the document (of each entity, under the per-entity policy) holds no
  badge and every later page holds exactly one.
\<close>

theorem degenerate_geometry:
  assumes "badge_width cfg \<noteq> 0" and "badge_height cfg \<noteq> 0"
  shows "\<exists>g. computeGeometry cfg = Inr g
     \<and> (cols g = 0 \<or> rows g = 0 \<longrightarrow> badges_per_page g = 0)
     \<and> (cols g = 0 \<and> concat (map snd pbe) \<noteq> [] \<longrightarrow>
          generate_badges_pdf cfg entities pbe output_file pdf_title grouped w
            = Inl ZeroDivisionError)
     \<and> (cols g \<noteq> 0 \<and> rows g = 0 \<longrightarrow>
          (\<exists>c. render_grouped cfg g pbe new_canvas = Inr c
              \<and> map badges_on (pages c) = [] # map (\<lambda>p. [p]) (concat (map snd pbe)))
          \<and> (\<exists>c. render_per_entity cfg g entities pbe new_canvas = Inr c
              \<and> map badges_on (pages c)
                   = concat (map (\<lambda>e. [] # map (\<lambda>p. [p]) (snd e)) pbe)))"
proof -
  obtain g where g: "computeGeometry cfg = Inr g"
    using computeGeometry_returns [OF assms] by blast
  have b: "badges_per_page g = cols g * rows g" by (rule computeGeometry_bpp [OF g])
  have 1: "cols g = 0 \<or> rows g = 0 \<longrightarrow> badges_per_page g = 0" using b by auto
  have 2: "cols g = 0 \<and> concat (map snd pbe) \<noteq> [] \<longrightarrow>
          generate_badges_pdf cfg entities pbe output_file pdf_title grouped w
            = Inl ZeroDivisionError"
    using generate_zero_cols [OF g] by blast
  have 3: "cols g \<noteq> 0 \<and> rows g = 0 \<longrightarrow>
          (\<exists>c. render_grouped cfg g pbe new_canvas = Inr c
              \<and> map badges_on (pages c) = [] # map (\<lambda>p. [p]) (concat (map snd pbe)))
          \<and> (\<exists>c. render_per_entity cfg g entities pbe new_canvas = Inr c
              \<and> map badges_on (pages c)
                   = concat (map (\<lambda>e. [] # map (\<lambda>p. [p]) (snd e)) pbe))"
  proof (intro impI)
    assume a: "cols g \<noteq> 0 \<and> rows g = 0"
    then have c: "cols g \<noteq> 0" and z: "badges_per_page g \<le> 0" using b by simp_all
    show "(\<exists>c. render_grouped cfg g pbe new_canvas = Inr c
              \<and> map badges_on (pages c) = [] # map (\<lambda>p. [p]) (concat (map snd pbe)))
          \<and> (\<exists>c. render_per_entity cfg g entities pbe new_canvas = Inr c
              \<and> map badges_on (pages c)
                   = concat (map (\<lambda>e. [] # map (\<lambda>p. [p]) (snd e)) pbe))"
      using render_grouped_no_room [OF c z] render_per_entity_no_room_new [OF c z]
      by (rule conjI)
  qed
  show ?thesis by (rule exI [where x = g]) (intro conjI g 1 2 3)
qed

theorem degenerate_geometry_witness:
  "badge_width wide_badge_config \<noteq> 0 \<and> badge_height wide_badge_config \<noteq> 0
   \<and> generate_badges_pdf wide_badge_config []
         [(''E1'', [\<lparr>participant_id = ''P1'', name = ''Ann''\<rparr>])]
         ''badges.pdf'' ''Badges'' False \<lparr>files = [], console = []\<rparr> = Inl ZeroDivisionError
   \<and> badge_width tall_badge_config \<noteq> 0 \<and> badge_height tall_badge_config \<noteq> 0
   \<and> (\<exists>g c. computeGeometry tall_badge_config = Inr g \<and> badges_per_page g = 0
          \<and> render_grouped tall_badge_config g
               [(''E1'', [\<lparr>participant_id = ''P1'', name = ''Ann''\<rparr>,
                          \<lparr>participant_id = ''P2'', name = ''Bob''\<rparr>])] new_canvas = Inr c
          \<and> map badges_on (pages c)
               = [[], [\<lparr>participant_id = ''P1'', name = ''Ann''\<rparr>],
                  [\<lparr>participant_id = ''P2'', name = ''Bob''\<rparr>]])"
proof -
  have w1: "badge_width wide_badge_config \<noteq> 0" and h1: "badge_height wide_badge_config \<noteq> 0"
    and w2: "badge_width tall_badge_config \<noteq> 0" and h2: "badge_height tall_badge_config \<noteq> 0"
    by (simp_all add: badge_width_def badge_height_def wide_badge_config_def
        tall_badge_config_def default_config_def mm_def)
  have a: "generate_badges_pdf wide_badge_config []
         [(''E1'', [\<lparr>participant_id = ''P1'', name = ''Ann''\<rparr>])]
         ''badges.pdf'' ''Badges'' False \<lparr>files = [], console = []\<rparr> = Inl ZeroDivisionError"
    using degenerate_geometry [OF w1 h1,
        of "[(''E1'', [\<lparr>participant_id = ''P1'', name = ''Ann''\<rparr>])]" "[]"
           "''badges.pdf''" "''Badges''" False "\<lparr>files = [], console = []\<rparr>"]
    by (simp add: computeGeometry_wide)
  have b: "\<exists>g c. computeGeometry tall_badge_config = Inr g \<and> badges_per_page g = 0
          \<and> render_grouped tall_badge_config g
               [(''E1'', [\<lparr>participant_id = ''P1'', name = ''Ann''\<rparr>,
                          \<lparr>participant_id = ''P2'', name = ''Bob''\<rparr>])] new_canvas = Inr c
          \<and> map badges_on (pages c)
               = [[], [\<lparr>participant_id = ''P1'', name = ''Ann''\<rparr>],
                  [\<lparr>participant_id = ''P2'', name = ''Bob''\<rparr>]]"
    using degenerate_geometry [OF w2 h2,
        of "[(''E1'', [\<lparr>participant_id = ''P1'', name = ''Ann''\<rparr>,
                       \<lparr>participant_id = ''P2'', name = ''Bob''\<rparr>])]" "[]"
           "''badges.pdf''" "''Badges''" True "\<lparr>files = [], console = []\<rparr>"]
    by (simp add: computeGeometry_tall del: render_per_entity.simps)
  show ?thesis using w1 h1 w2 h2 a b by blast
qed

text \<open>
  The claim as it is written fails on the scenario the specification gives for it
  (badge width 250 mm, so no column) with one participant: the run ends in
  \<^verbatim>\<open>ZeroDivisionError\<close>.
\<close>

theorem degenerate_geometry_counterexample:
  "computeGeometry wide_badge_config
     = Inr \<lparr>usable_width = 190 * mm, usable_height = 262 * mm, cols = 0, rows = 1,
            badges_per_page = 0, h_spacing = 0, v_spacing = 0\<rparr>
   \<and> generate_badges_pdf wide_badge_config []
         [(''E1'', [\<lparr>participant_id = ''P1'', name = ''Ann''\<rparr>])]
         ''badges.pdf'' ''Badges'' True \<lparr>files = [], console = []\<rparr> = Inl ZeroDivisionError"
  by (simp add: computeGeometry_wide generate_badges_pdf_def render_grouped_def
      draw_badge_def)

subsection \<open>An empty stream\<close>

text \<open>
  C8. With an empty participant mapping \<^verbatim>\<open>generate_badges_pdf\<close> returns at once: it
  prints one line, writes no file and makes no drawing call (no canvas is made,
  so no document of zero pages either). It returns normally, so \<^verbatim>\<open>main\<close> goes on
  to the next stream: with no rows at all, both streams are skipped in turn and
  the run ends with no file written.
\<close>

theorem empty_mapping_no_op:
  "generate_badges_pdf cfg entities [] output_file pdf_title grouped w
     = Inr (say (NoParticipants output_file) w)
   \<and> files (say (NoParticipants output_file) w) = files w
   \<and> console (say (NoParticipants output_file) w) = console w @ [NoParticipants output_file]
   \<and> main cfg [] [] w
     = Inr \<lparr>files = files w,
            console = console w @
              [Line ''Loading data...'', FoundPrivate 0, FoundDelegation 0,
               Line ''Generating PDFs...'',
               NoParticipants ''badges_private_delegates.pdf'',
               NoParticipants ''badges_delegations.pdf'',
               Line ''All PDFs generated successfully!'']\<rparr>"
  by (simp add: generate_badges_pdf_def say_def main_def load_entities_def
      load_participants_def)

subsection \<open>The anchor of a badge\<close>

text \<open>
  C2. The column, the row and the horizontal anchor are as the claim says. The
  vertical anchor is not: measured from the top edge, \<^verbatim>\<open>draw_badge\<close> adds the
  height of the footer band to it (line 174), although both footers are written
  at the bottom margin (lines 148 and 154) and the band is described as space
  at the bottom of the page (line 124). On the grid of the source the first
  badge starts 27 mm below the top edge, where the claim's formula gives 12 mm;
  and the badges of the last row (index 16 to 19) reach down to 12 mm above the
  bottom edge, into the band of 15 mm above the bottom margin where the footer
  is written, while the claim's formula keeps them 27 mm above the bottom edge.
\<close>

theorem first_badge_anchor:
  "draw_badge default_config default_geometry \<lparr>participant_id = ''P1'', name = ''Ann''\<rparr> 0
       new_canvas
     = Inr \<lparr>pages = [],
            current = [Badge \<lparr>participant_id = ''P1'', name = ''Ann''\<rparr> 0
              \<lparr>badge_col = 0, badge_row = 0, badge_x = 16 * mm, y_from_top = 27 * mm,
               badge_y = 220 * mm, qr_payload = Some ''P1'', label = ''Ann'',
               name_x = 36 * mm, name_y = 225 * mm\<rparr>]\<rparr>
   \<and> margin default_config + v_spacing default_geometry
        + 0 * (badge_height default_config + v_spacing default_geometry) = 12 * mm
   \<and> draw_badge default_config default_geometry \<lparr>participant_id = ''P1'', name = ''Ann''\<rparr> 16
       new_canvas
     = Inr \<lparr>pages = [],
            current = [Badge \<lparr>participant_id = ''P1'', name = ''Ann''\<rparr> 16
              \<lparr>badge_col = 0, badge_row = 4, badge_x = 16 * mm, y_from_top = 235 * mm,
               badge_y = 12 * mm, qr_payload = Some ''P1'', label = ''Ann'',
               name_x = 36 * mm, name_y = 17 * mm\<rparr>]\<rparr>
   \<and> 12 * mm < margin default_config + footer_height default_config
   \<and> entity_footer_op default_config ''E1'' \<lparr>entity_type = ''Delegation'', display_name = ''Alpha''\<rparr>
     = EntityFooter \<lparr>at_x = 105 * mm, at_y = 15 * mm, text_of = ''E1''\<rparr>
                    \<lparr>at_x = 105 * mm, at_y = 10 * mm, text_of = ''Alpha''\<rparr>
   \<and> page_height default_config
        - (margin default_config + v_spacing default_geometry
           + 4 * (badge_height default_config + v_spacing default_geometry))
        - badge_height default_config = 27 * mm"
  by (simp add: draw_badge_def default_geometry_def default_config_def A4_def mm_def
      badge_width_def badge_height_def truncate_name_def max_name_length_def draw_def
      new_canvas_def entity_footer_op_def Let_def)

subsection \<open>Classification of the entities\<close>

text \<open>
  C7. The entities loaded from the file are those whose (trimmed) id stands in a
  row. The loop of \<^verbatim>\<open>main\<close> puts every one of them into exactly one of the two
  dictionaries: together they hold all entities, and no id is in both. An entity
  goes to the private delegates exactly when its type, in lower case, contains
  \<^verbatim>\<open>private delegate\<close>, and to the delegations otherwise.
\<close>

theorem classification_complete:
  assumes "load_entities rs = Inr entities"
  shows "\<exists>pd de. classify_entities entities ([], []) = (pd, de)
     \<and> fst ` set entities = {k. \<exists>r \<in> set rs. row_item r ''entity_id'' = Inr k}
     \<and> fst ` set pd \<union> fst ` set de = fst ` set entities
     \<and> fst ` set pd \<inter> fst ` set de = {}
     \<and> set pd \<union> set de = set entities
     \<and> (\<forall>e \<in> set entities.
           (e \<in> set pd \<longleftrightarrow> (\<exists>a b. lower (entity_type (snd e)) = a @ ''private delegate'' @ b))
         \<and> (e \<in> set de \<longleftrightarrow> \<not> (\<exists>a b. lower (entity_type (snd e)) = a @ ''private delegate'' @ b)))"
proof -
  let ?P = "\<lambda>e :: string \<times> entity_info. is_private_delegate (entity_type (snd e))"
  from assms have l: "load_entities_loop rs [] = Inr entities" by (simp add: load_entities_def)
  from load_entities_loop_keys [OF l] have
    d: "distinct (map fst entities)"
    and k: "fst ` set entities = {k. \<exists>r \<in> set rs. row_item r ''entity_id'' = Inr k}"
    by simp_all
  have c: "classify_entities entities ([], []) = (filter ?P entities, filter (\<lambda>e. \<not> ?P e) entities)"
    using classify_entities_filter [OF d, of "[]" "[]"] by simp
  have 1: "fst ` set (filter ?P entities) \<union> fst ` set (filter (\<lambda>e. \<not> ?P e) entities)
      = fst ` set entities"
    by auto
  have 2: "fst ` set (filter ?P entities) \<inter> fst ` set (filter (\<lambda>e. \<not> ?P e) entities) = {}"
  proof (rule ccontr)
    assume "fst ` set (filter ?P entities) \<inter> fst ` set (filter (\<lambda>e. \<not> ?P e) entities) \<noteq> {}"
    then obtain e1 e2 where e: "e1 \<in> set entities" "?P e1" "e2 \<in> set entities" "\<not> ?P e2"
      "fst e1 = fst e2"
      by auto
    from d e(1,3,5) have "e1 = e2" by (metis eq_key_imp_eq_value prod.collapse)
    then show False using e(2,4) by simp
  qed
  have 3: "set (filter ?P entities) \<union> set (filter (\<lambda>e. \<not> ?P e) entities) = set entities"
    by auto
  have 4: "\<forall>e \<in> set entities.
           (e \<in> set (filter ?P entities)
              \<longleftrightarrow> (\<exists>a b. lower (entity_type (snd e)) = a @ ''private delegate'' @ b))
         \<and> (e \<in> set (filter (\<lambda>e. \<not> ?P e) entities)
              \<longleftrightarrow> \<not> (\<exists>a b. lower (entity_type (snd e)) = a @ ''private delegate'' @ b))"
    by (simp add: is_private_delegate_iff)
  show ?thesis
    by (rule exI [where x = "filter ?P entities"],
        rule exI [where x = "filter (\<lambda>e. \<not> ?P e) entities"])
       (intro conjI c k 1 2 3 4)
qed

theorem classification_complete_witness:
  "load_entities
     [[''entity_id'' \<mapsto> Some ''E1'', ''entity_type'' \<mapsto> Some ''Private Delegate''],
      [''entity_id'' \<mapsto> Some '' E2 '', ''entity_type'' \<mapsto> Some ''Delegation'',
       ''team_name'' \<mapsto> Some ''Alpha'']]
     = Inr [(''E1'', \<lparr>entity_type = ''Private Delegate'', display_name = ''''\<rparr>),
            (''E2'', \<lparr>entity_type = ''Delegation'', display_name = ''Alpha''\<rparr>)]
   \<and> (\<exists>pd de. classify_entities
            [(''E1'', \<lparr>entity_type = ''Private Delegate'', display_name = ''''\<rparr>),
             (''E2'', \<lparr>entity_type = ''Delegation'', display_name = ''Alpha''\<rparr>)] ([], [])
          = (pd, de)
        \<and> fst ` set pd \<union> fst ` set de = {''E1'', ''E2''}
        \<and> fst ` set pd \<inter> fst ` set de = {}
        \<and> (''E1'', \<lparr>entity_type = ''Private Delegate'', display_name = ''''\<rparr>) \<in> set pd
        \<and> (''E2'', \<lparr>entity_type = ''Delegation'', display_name = ''Alpha''\<rparr>) \<in> set de)"
proof -
  let ?rows = "[[''entity_id'' \<mapsto> Some ''E1'', ''entity_type'' \<mapsto> Some ''Private Delegate''],
      [''entity_id'' \<mapsto> Some '' E2 '', ''entity_type'' \<mapsto> Some ''Delegation'',
       ''team_name'' \<mapsto> Some ''Alpha'']]"
  let ?e1 = "(''E1'', \<lparr>entity_type = ''Private Delegate'', display_name = ''''\<rparr>)"
  let ?e2 = "(''E2'', \<lparr>entity_type = ''Delegation'', display_name = ''Alpha''\<rparr>)"
  have l: "load_entities ?rows = Inr [?e1, ?e2]"
    by (simp add: load_entities_def entity_of_row_def row_item_def row_get_def strip_def
        is_space_def)
  from classification_complete [OF l] obtain pd where
    "\<exists>de. classify_entities [?e1, ?e2] ([], []) = (pd, de)
     \<and> fst ` set [?e1, ?e2] = {k. \<exists>r \<in> set ?rows. row_item r ''entity_id'' = Inr k}
     \<and> fst ` set pd \<union> fst ` set de = fst ` set [?e1, ?e2]
     \<and> fst ` set pd \<inter> fst ` set de = {}
     \<and> set pd \<union> set de = set [?e1, ?e2]
     \<and> (\<forall>e \<in> set [?e1, ?e2].
           (e \<in> set pd \<longleftrightarrow> (\<exists>a b. lower (entity_type (snd e)) = a @ ''private delegate'' @ b))
         \<and> (e \<in> set de \<longleftrightarrow> \<not> (\<exists>a b. lower (entity_type (snd e)) = a @ ''private delegate'' @ b)))" ..
  then obtain de where
    h: "classify_entities [?e1, ?e2] ([], []) = (pd, de)
     \<and> fst ` set [?e1, ?e2] = {k. \<exists>r \<in> set ?rows. row_item r ''entity_id'' = Inr k}
     \<and> fst ` set pd \<union> fst ` set de = fst ` set [?e1, ?e2]
     \<and> fst ` set pd \<inter> fst ` set de = {}
     \<and> set pd \<union> set de = set [?e1, ?e2]
     \<and> (\<forall>e \<in> set [?e1, ?e2].
           (e \<in> set pd \<longleftrightarrow> (\<exists>a b. lower (entity_type (snd e)) = a @ ''private delegate'' @ b))
         \<and> (e \<in> set de \<longleftrightarrow> \<not> (\<exists>a b. lower (entity_type (snd e)) = a @ ''private delegate'' @ b)))" ..
  note c = h [THEN conjunct1]
    and u = h [THEN conjunct2, THEN conjunct2, THEN conjunct1]
    and i = h [THEN conjunct2, THEN conjunct2, THEN conjunct2, THEN conjunct1]
    and m = h [THEN conjunct2, THEN conjunct2, THEN conjunct2, THEN conjunct2, THEN conjunct2]
  have p1: "\<exists>a b. lower ''Private Delegate'' = a @ ''private delegate'' @ b"
    using is_private_delegate_iff [of "''Private Delegate''"]
    by (simp add: is_private_delegate_def str_in_def lower_def lower_char_def sublist_code)
  have p2: "\<not> (\<exists>a b. lower ''Delegation'' = a @ ''private delegate'' @ b)"
    using is_private_delegate_iff [of "''Delegation''"]
    by (simp add: is_private_delegate_def str_in_def lower_def lower_char_def sublist_code)
  have m1: "?e1 \<in> set pd" using m p1 by simp
  have m2: "?e2 \<in> set de" using m p2 by simp
  have u': "fst ` set pd \<union> fst ` set de = {''E1'', ''E2''}" using u by simp
  have "classify_entities [?e1, ?e2] ([], []) = (pd, de)
        \<and> fst ` set pd \<union> fst ` set de = {''E1'', ''E2''}
        \<and> fst ` set pd \<inter> fst ` set de = {}
        \<and> ?e1 \<in> set pd \<and> ?e2 \<in> set de"
    by (intro conjI c u' i m1 m2)
  then have "\<exists>pd de. classify_entities [?e1, ?e2] ([], []) = (pd, de)
        \<and> fst ` set pd \<union> fst ` set de = {''E1'', ''E2''}
        \<and> fst ` set pd \<inter> fst ` set de = {}
        \<and> ?e1 \<in> set pd \<and> ?e2 \<in> set de"
    by (intro exI)
  with l show ?thesis by (rule conjI)
qed

subsection \<open>The label of a badge\<close>

text \<open>
  C5. The label that \<^verbatim>\<open>draw_badge\<close> writes under the QR code: for a name of more
  than 25 characters it is the first 22 characters followed by three dots, 25
  characters in all; for a name of at most 25 characters it is the name as it
  is. \<^verbatim>\<open>draw_badge\<close> returns this badge on every grid with a column. The same
  holds of every label on every page of a rendered stream, under either policy,
  and the labels stand for the names of the participants in their order.
\<close>

theorem truncation_law:
  "(cols g \<noteq> 0 \<longrightarrow>
      (\<exists>b. draw_badge cfg g p k c = Inr (draw (Badge p k b) c)
         \<and> (length (name p) > 25
              \<longrightarrow> label b = take 22 (name p) @ ''...'' \<and> length (label b) = 25)
         \<and> (length (name p) \<le> 25 \<longrightarrow> label b = name p)))
   \<and> (\<forall>d. render_grouped cfg g pbe new_canvas = Inr d
            \<or> render_per_entity cfg g entities pbe new_canvas = Inr d \<longrightarrow>
         map fst (concat (map labels_on (pages d))) = map name (concat (map snd pbe))
         \<and> (\<forall>pg \<in> set (pages d). \<forall>nl \<in> set (labels_on pg).
               (length (fst nl) > 25
                  \<longrightarrow> snd nl = take 22 (fst nl) @ ''...'' \<and> length (snd nl) = 25)
             \<and> (length (fst nl) \<le> 25 \<longrightarrow> snd nl = fst nl)))"
proof (intro conjI impI allI)
  assume c0: "cols g \<noteq> 0"
  obtain c2 where d: "draw_badge cfg g p k c = Inr c2"
    using draw_badge_ok [OF c0] by blast
  from draw_badge_label [OF d] obtain b where
    b: "c2 = draw (Badge p k b) c" "label b = truncate_name (name p)" by blast
  have "draw_badge cfg g p k c = Inr (draw (Badge p k b) c)
         \<and> (length (name p) > 25
              \<longrightarrow> label b = take 22 (name p) @ ''...'' \<and> length (label b) = 25)
         \<and> (length (name p) \<le> 25 \<longrightarrow> label b = name p)"
    using d b truncate_name_law [of "name p"] by simp
  then show "\<exists>b. draw_badge cfg g p k c = Inr (draw (Badge p k b) c)
         \<and> (length (name p) > 25
              \<longrightarrow> label b = take 22 (name p) @ ''...'' \<and> length (label b) = 25)
         \<and> (length (name p) \<le> 25 \<longrightarrow> label b = name p)"
    by (rule exI)
next
  fix d
  assume r: "render_grouped cfg g pbe new_canvas = Inr d
            \<or> render_per_entity cfg g entities pbe new_canvas = Inr d"
  have all: "concat (map labels_on (pages d))
      = map (\<lambda>p. (name p, truncate_name (name p))) (concat (map snd pbe))"
  proof (rule disjE [OF r])
    assume "render_grouped cfg g pbe new_canvas = Inr d"
    then show ?thesis by (rule render_grouped_labels)
  next
    assume a: "render_per_entity cfg g entities pbe new_canvas = Inr d"
    have nc: "current new_canvas = []" by (simp add: new_canvas_def)
    from render_per_entity_labels [OF a nc] show ?thesis by (simp add: new_canvas_def)
  qed
  show "map fst (concat (map labels_on (pages d))) = map name (concat (map snd pbe))"
    by (simp add: all comp_def)
  show "\<forall>pg \<in> set (pages d). \<forall>nl \<in> set (labels_on pg).
               (length (fst nl) > 25
                  \<longrightarrow> snd nl = take 22 (fst nl) @ ''...'' \<and> length (snd nl) = 25)
             \<and> (length (fst nl) \<le> 25 \<longrightarrow> snd nl = fst nl)"
  proof (intro ballI)
    fix pg nl
    assume pg: "pg \<in> set (pages d)" and nl: "nl \<in> set (labels_on pg)"
    then have "nl \<in> set (concat (map labels_on (pages d)))" by auto
    then obtain p :: participant where "nl = (name p, truncate_name (name p))"
      using all by auto
    then show "(length (fst nl) > 25
                  \<longrightarrow> snd nl = take 22 (fst nl) @ ''...'' \<and> length (snd nl) = 25)
             \<and> (length (fst nl) \<le> 25 \<longrightarrow> snd nl = fst nl)"
      using truncate_name_law [of "name p"] by simp
  qed
qed

theorem truncation_law_witness:
  "cols default_geometry \<noteq> 0
   \<and> length (name \<lparr>participant_id = ''P1'', name = ''ABCDEFGHIJKLMNOPQRSTUVWXYZ''\<rparr>) > 25
   \<and> (\<exists>b. draw_badge default_config default_geometry
             \<lparr>participant_id = ''P1'', name = ''ABCDEFGHIJKLMNOPQRSTUVWXYZ''\<rparr> 0 new_canvas
           = Inr (draw (Badge \<lparr>participant_id = ''P1'', name = ''ABCDEFGHIJKLMNOPQRSTUVWXYZ''\<rparr>
                    0 b) new_canvas)
         \<and> label b = ''ABCDEFGHIJKLMNOPQRSTUV...'' \<and> length (label b) = 25)
   \<and> length (name \<lparr>participant_id = ''P2'', name = ''Ada Lovelace''\<rparr>) \<le> 25
   \<and> (\<exists>b. draw_badge default_config default_geometry
             \<lparr>participant_id = ''P2'', name = ''Ada Lovelace''\<rparr> 1 new_canvas
           = Inr (draw (Badge \<lparr>participant_id = ''P2'', name = ''Ada Lovelace''\<rparr> 1 b) new_canvas)
         \<and> label b = ''Ada Lovelace'')"
proof -
  let ?p1 = "\<lparr>participant_id = ''P1'', name = ''ABCDEFGHIJKLMNOPQRSTUVWXYZ''\<rparr>"
  let ?p2 = "\<lparr>participant_id = ''P2'', name = ''Ada Lovelace''\<rparr>"
  have c0: "cols default_geometry \<noteq> 0" by (simp add: default_geometry_def)
  have l1: "length (name ?p1) > 25" and l2: "length (name ?p2) \<le> 25" by simp_all
  note t1 = truncation_law [where g = default_geometry and cfg = default_config and p = ?p1
      and k = 0 and c = new_canvas, THEN conjunct1, THEN mp, OF c0]
  note t2 = truncation_law [where g = default_geometry and cfg = default_config and p = ?p2
      and k = 1 and c = new_canvas, THEN conjunct1, THEN mp, OF c0]
  from t1 l1 have a: "\<exists>b. draw_badge default_config default_geometry ?p1 0 new_canvas
           = Inr (draw (Badge ?p1 0 b) new_canvas)
         \<and> label b = ''ABCDEFGHIJKLMNOPQRSTUV...'' \<and> length (label b) = 25"
    by simp
  from t2 l2 have b: "\<exists>b. draw_badge default_config default_geometry ?p2 1 new_canvas
           = Inr (draw (Badge ?p2 1 b) new_canvas)
         \<and> label b = ''Ada Lovelace''"
    by simp
  show ?thesis by (intro conjI c0 l1 a l2 b)
qed

subsection \<open>Participants of an entity that was not loaded\<close>

text \<open>
  C10. Let the two files load, on a grid with a column, and let an entity id have
  participants but not be among the loaded entities. Then \<^verbatim>\<open>main\<close> puts the id
  with all its participants into the delegation stream and not among the private
  delegates, and it returns with the delegations file written by the per-entity
  rendering of that stream. In that file the entity has its own pages, at least
  one, whose footer shows the id and under it \<^verbatim>\<open>Unknown Delegation\<close>, and which
  hold the badges of its participants; no page shows the id with another name.
  The private delegates file is left as it was when that stream is empty, and
  otherwise holds the badges of the private delegates' participants only.
\<close>

theorem unknown_entity_dispatch:
  assumes "load_entities ers = Inr entities" and "load_participants prs = Inr all_participants"
    and "map_of entities eid = None" and "(eid, ps) \<in> set all_participants"
    and "computeGeometry cfg = Inr g" and "cols g \<noteq> 0"
  shows "\<exists>pp dp w' c2. split_participants entities all_participants ([], []) = (pp, dp)
     \<and> (eid, ps) \<in> set dp \<and> eid \<notin> fst ` set pp
     \<and> main cfg ers prs w = Inr w'
     \<and> render_per_entity cfg g entities dp new_canvas = Inr c2
     \<and> map_of (files w') ''badges_delegations.pdf'' = Some (pages c2)
     \<and> (\<exists>grp. grp \<noteq> [] \<and> set grp \<subseteq> set (pages c2)
           \<and> (\<forall>pg \<in> set grp. footers_on pg
                 = [EntityFooter
                      \<lparr>at_x = page_width cfg / 2, at_y = margin cfg + 5 * mm, text_of = eid\<rparr>
                      \<lparr>at_x = page_width cfg / 2, at_y = margin cfg,
                       text_of = ''Unknown Delegation''\<rparr>])
           \<and> concat (map badges_on grp) = ps)
     \<and> (\<forall>pg \<in> set (pages c2). \<forall>a b.
           footers_on pg = [EntityFooter a b] \<and> text_of a = eid
             \<longrightarrow> text_of b = ''Unknown Delegation'')
     \<and> (pp = [] \<longrightarrow> map_of (files w') ''badges_private_delegates.pdf''
                      = map_of (files w) ''badges_private_delegates.pdf'')
     \<and> (pp \<noteq> [] \<longrightarrow> (\<exists>c1. render_grouped cfg g pp new_canvas = Inr c1
            \<and> map_of (files w') ''badges_private_delegates.pdf'' = Some (pages c1)
            \<and> concat (map badges_on (pages c1)) = concat (map snd pp)))"
proof -
  have d: "distinct (map fst all_participants)"
    using load_participants_loop_distinct [of prs "[]" all_participants] assms(2)
    by (simp add: load_participants_def)
  from unknown_entity_split_render [OF assms(3) d assms(4), of g cfg]
  obtain pp :: "(string \<times> participant list) list"
    and dp :: "(string \<times> participant list) list" where
    h: "split_participants entities all_participants ([], []) = (pp, dp)
     \<and> (eid, ps) \<in> set dp \<and> eid \<notin> fst ` set pp
     \<and> (cols g \<noteq> 0 \<longrightarrow> (\<exists>c. render_per_entity cfg g entities dp new_canvas = Inr c))
     \<and> (\<forall>c. render_per_entity cfg g entities dp new_canvas = Inr c \<longrightarrow>
          (\<exists>grp. grp \<noteq> [] \<and> set grp \<subseteq> set (pages c)
              \<and> (\<forall>pg \<in> set grp. footers_on pg
                    = [EntityFooter
                         \<lparr>at_x = page_width cfg / 2, at_y = margin cfg + 5 * mm, text_of = eid\<rparr>
                         \<lparr>at_x = page_width cfg / 2, at_y = margin cfg,
                          text_of = ''Unknown Delegation''\<rparr>])
              \<and> concat (map badges_on grp) = ps)
          \<and> (\<forall>pg \<in> set (pages c). \<forall>a b.
                footers_on pg = [EntityFooter a b] \<and> text_of a = eid
                  \<longrightarrow> text_of b = ''Unknown Delegation''))"
    by (elim exE)
  note s = h [THEN conjunct1] and m1 = h [THEN conjunct2, THEN conjunct1]
    and m2 = h [THEN conjunct2, THEN conjunct2, THEN conjunct1]
    and pgs = h [THEN conjunct2, THEN conjunct2, THEN conjunct2, THEN conjunct2]
  have ne: "dp \<noteq> []" using m1 by auto
  from main_files [OF assms(1,2) s assms(5,6) ne, of w] obtain w' c2 where
    f: "main cfg ers prs w = Inr w'
     \<and> render_per_entity cfg g entities dp new_canvas = Inr c2
     \<and> map_of (files w') ''badges_delegations.pdf'' = Some (pages c2)
     \<and> (pp = [] \<longrightarrow> map_of (files w') ''badges_private_delegates.pdf''
                      = map_of (files w) ''badges_private_delegates.pdf'')
     \<and> (pp \<noteq> [] \<longrightarrow> (\<exists>c1. render_grouped cfg g pp new_canvas = Inr c1
            \<and> map_of (files w') ''badges_private_delegates.pdf'' = Some (pages c1)))"
    by (elim exE)
  note mn = f [THEN conjunct1] and r2 = f [THEN conjunct2, THEN conjunct1]
    and fd = f [THEN conjunct2, THEN conjunct2, THEN conjunct1]
    and p1 = f [THEN conjunct2, THEN conjunct2, THEN conjunct2, THEN conjunct1]
    and p2 = f [THEN conjunct2, THEN conjunct2, THEN conjunct2, THEN conjunct2]
  note own = pgs [THEN spec, THEN mp, OF r2]
  have p2': "pp \<noteq> [] \<longrightarrow> (\<exists>c1. render_grouped cfg g pp new_canvas = Inr c1
            \<and> map_of (files w') ''badges_private_delegates.pdf'' = Some (pages c1)
            \<and> concat (map badges_on (pages c1)) = concat (map snd pp))"
  proof
    assume "pp \<noteq> []"
    with p2 obtain c1 where c1: "render_grouped cfg g pp new_canvas = Inr c1"
      "map_of (files w') ''badges_private_delegates.pdf'' = Some (pages c1)"
      by (elim impE exE conjE)
    from c1 render_grouped_badges [OF c1(1)]
    show "\<exists>c1. render_grouped cfg g pp new_canvas = Inr c1
            \<and> map_of (files w') ''badges_private_delegates.pdf'' = Some (pages c1)
            \<and> concat (map badges_on (pages c1)) = concat (map snd pp)"
      by (intro exI [where x = c1] conjI)
  qed
  show ?thesis
    by (rule exI [where x = pp], rule exI [where x = dp], rule exI [where x = w'],
        rule exI [where x = c2])
       (intro conjI s m1 m2 mn r2 fd own [THEN conjunct1] own [THEN conjunct2] p1 p2')
qed

theorem unknown_entity_dispatch_witness:
  "load_entities [[''entity_id'' \<mapsto> Some ''E1'', ''entity_type'' \<mapsto> Some ''Delegation'',
                   ''team_name'' \<mapsto> Some ''Alpha'']]
     = Inr [(''E1'', \<lparr>entity_type = ''Delegation'', display_name = ''Alpha''\<rparr>)]
   \<and> load_participants [[''entity_id'' \<mapsto> Some ''E9'', ''participant_id'' \<mapsto> Some ''P1'',
                         ''name'' \<mapsto> Some ''Ann'']]
     = Inr [(''E9'', [\<lparr>participant_id = ''P1'', name = ''Ann''\<rparr>])]
   \<and> map_of [(''E1'', \<lparr>entity_type = ''Delegation'', display_name = ''Alpha''\<rparr>)] ''E9'' = None
   \<and> (''E9'', [\<lparr>participant_id = ''P1'', name = ''Ann''\<rparr>])
        \<in> set [(''E9'', [\<lparr>participant_id = ''P1'', name = ''Ann''\<rparr>])]
   \<and> computeGeometry default_config = Inr default_geometry
   \<and> cols default_geometry \<noteq> 0
   \<and> (\<exists>w' (c2 :: canvas). main default_config
            [[''entity_id'' \<mapsto> Some ''E1'', ''entity_type'' \<mapsto> Some ''Delegation'',
              ''team_name'' \<mapsto> Some ''Alpha'']]
            [[''entity_id'' \<mapsto> Some ''E9'', ''participant_id'' \<mapsto> Some ''P1'',
              ''name'' \<mapsto> Some ''Ann'']]
            \<lparr>files = [], console = []\<rparr> = Inr w'
        \<and> map_of (files w') ''badges_delegations.pdf'' = Some (pages c2)
        \<and> (\<exists>grp. grp \<noteq> [] \<and> set grp \<subseteq> set (pages c2)
              \<and> (\<forall>pg \<in> set grp. footers_on pg
                    = [EntityFooter
                         \<lparr>at_x = page_width default_config / 2,
                          at_y = margin default_config + 5 * mm, text_of = ''E9''\<rparr>
                         \<lparr>at_x = page_width default_config / 2, at_y = margin default_config,
                          text_of = ''Unknown Delegation''\<rparr>])
              \<and> concat (map badges_on grp) = [\<lparr>participant_id = ''P1'', name = ''Ann''\<rparr>]))"
proof -
  let ?ers = "[[''entity_id'' \<mapsto> Some ''E1'', ''entity_type'' \<mapsto> Some ''Delegation'',
                ''team_name'' \<mapsto> Some ''Alpha'']] :: row list"
  let ?prs = "[[''entity_id'' \<mapsto> Some ''E9'', ''participant_id'' \<mapsto> Some ''P1'',
                ''name'' \<mapsto> Some ''Ann'']] :: row list"
  let ?ents = "[(''E1'', \<lparr>entity_type = ''Delegation'', display_name = ''Alpha''\<rparr>)]"
  let ?ps = "[\<lparr>participant_id = ''P1'', name = ''Ann''\<rparr>]"
  let ?all = "[(''E9'', ?ps)]"
  let ?w = "\<lparr>files = [], console = []\<rparr>"
  have h1: "load_entities ?ers = Inr ?ents"
    by (simp add: load_entities_def entity_of_row_def row_item_def row_get_def strip_def
        is_space_def)
  have h2: "load_participants ?prs = Inr ?all"
    by (simp add: load_participants_def participant_of_row_def row_item_def row_get_def
        strip_def is_space_def append_to_def)
  have h3: "map_of ?ents ''E9'' = None" by simp
  have h4: "(''E9'', ?ps) \<in> set ?all" by simp
  have h6: "cols default_geometry \<noteq> 0" by (simp add: default_geometry_def)
  from unknown_entity_dispatch [OF h1 h2 h3 h4 computeGeometry_default h6, of ?w]
  obtain pp :: "(string \<times> participant list) list"
    and dp :: "(string \<times> participant list) list" and w' c2 where
    t: "split_participants ?ents ?all ([], []) = (pp, dp)
     \<and> (''E9'', ?ps) \<in> set dp \<and> ''E9'' \<notin> fst ` set pp
     \<and> main default_config ?ers ?prs ?w = Inr w'
     \<and> render_per_entity default_config default_geometry ?ents dp new_canvas = Inr c2
     \<and> map_of (files w') ''badges_delegations.pdf'' = Some (pages c2)
     \<and> (\<exists>grp. grp \<noteq> [] \<and> set grp \<subseteq> set (pages c2)
           \<and> (\<forall>pg \<in> set grp. footers_on pg
                 = [EntityFooter
                      \<lparr>at_x = page_width default_config / 2,
                       at_y = margin default_config + 5 * mm, text_of = ''E9''\<rparr>
                      \<lparr>at_x = page_width default_config / 2, at_y = margin default_config,
                       text_of = ''Unknown Delegation''\<rparr>])
           \<and> concat (map badges_on grp) = ?ps)
     \<and> (\<forall>pg \<in> set (pages c2). \<forall>a b.
           footers_on pg = [EntityFooter a b] \<and> text_of a = ''E9''
             \<longrightarrow> text_of b = ''Unknown Delegation'')
     \<and> (pp = [] \<longrightarrow> map_of (files w') ''badges_private_delegates.pdf''
                      = map_of (files ?w) ''badges_private_delegates.pdf'')
     \<and> (pp \<noteq> [] \<longrightarrow> (\<exists>c1. render_grouped default_config default_geometry pp new_canvas
              = Inr c1
            \<and> map_of (files w') ''badges_private_delegates.pdf'' = Some (pages c1)
            \<and> concat (map badges_on (pages c1)) = concat (map snd pp)))"
    by (elim exE)
  note m = t [THEN conjunct2, THEN conjunct2, THEN conjunct2, THEN conjunct1]
    and f = t [THEN conjunct2, THEN conjunct2, THEN conjunct2, THEN conjunct2, THEN conjunct2,
               THEN conjunct1]
    and gr = t [THEN conjunct2, THEN conjunct2, THEN conjunct2, THEN conjunct2, THEN conjunct2,
                THEN conjunct2, THEN conjunct1]
  have e: "\<exists>w' (c2 :: canvas). main default_config ?ers ?prs ?w = Inr w'
        \<and> map_of (files w') ''badges_delegations.pdf'' = Some (pages c2)
        \<and> (\<exists>grp. grp \<noteq> [] \<and> set grp \<subseteq> set (pages c2)
              \<and> (\<forall>pg \<in> set grp. footers_on pg
                    = [EntityFooter
                         \<lparr>at_x = page_width default_config / 2,
                          at_y = margin default_config + 5 * mm, text_of = ''E9''\<rparr>
                         \<lparr>at_x = page_width default_config / 2, at_y = margin default_config,
                          text_of = ''Unknown Delegation''\<rparr>])
              \<and> concat (map badges_on grp) = ?ps)"
  proof (intro exI)
    show "main default_config ?ers ?prs ?w = Inr w'
        \<and> map_of (files w') ''badges_delegations.pdf'' = Some (pages c2)
        \<and> (\<exists>grp. grp \<noteq> [] \<and> set grp \<subseteq> set (pages c2)
              \<and> (\<forall>pg \<in> set grp. footers_on pg
                    = [EntityFooter
                         \<lparr>at_x = page_width default_config / 2,
                          at_y = margin default_config + 5 * mm, text_of = ''E9''\<rparr>
                         \<lparr>at_x = page_width default_config / 2, at_y = margin default_config,
                          text_of = ''Unknown Delegation''\<rparr>])
              \<and> concat (map badges_on grp) = ?ps)"
      by (rule conjI [OF m conjI [OF f gr]])
  qed
  show ?thesis by (intro conjI h1 h2 h3 h4 computeGeometry_default h6 e)
qed

subsection \<open>Missing keys and missing fields\<close>

text \<open>
  C9. The loaders are to fail with a missing-key error on a row without the key
  column \<^verbatim>\<open>entity_id\<close>, to read every other absent field as the empty string, and
  to trim every field. The code does so when the column is absent from the header:
  \<^verbatim>\<open>row['entity_id']\<close> raises \<^verbatim>\<open>KeyError\<close> and \<^verbatim>\<open>row.get(k, '')\<close> yields the empty
  string. It does not when the field is absent from a row shorter than the header.
  \<^verbatim>\<open>csv.DictReader\<close> gives such a row the key with the value \<^verbatim>\<open>None\<close>, the default of
  \<^verbatim>\<open>get\<close> does not apply, and \<^verbatim>\<open>.strip()\<close> raises \<^verbatim>\<open>AttributeError\<close>: for an optional
  field instead of the empty string, for the key column instead of \<^verbatim>\<open>KeyError\<close>.
  The theorem evaluates the loaders and \<^verbatim>\<open>main\<close> on such rows, and, next to them, on
  rows where the column is absent from the header.

  The rows are, in order: header \<^verbatim>\<open>entity_id,entity_type,team_name,institution_name\<close>
  with the line \<^verbatim>\<open>E1\<close>; header \<^verbatim>\<open>entity_id,participant_id,name\<close> with the line
  \<^verbatim>\<open>E1,P1\<close>; header \<^verbatim>\<open>participant_id,name,entity_id\<close> with the line \<^verbatim>\<open>P1,Ann\<close>.
\<close>

theorem short_row_attribute_error:
  "load_entities [[''entity_id'' \<mapsto> Some ''E1'', ''entity_type'' \<mapsto> None,
                   ''team_name'' \<mapsto> None, ''institution_name'' \<mapsto> None]]
     = Inl AttributeError
   \<and> load_participants [[''entity_id'' \<mapsto> Some ''E1'', ''participant_id'' \<mapsto> Some ''P1'',
                         ''name'' \<mapsto> None]]
     = Inl AttributeError
   \<and> load_participants [[''participant_id'' \<mapsto> Some ''P1'', ''name'' \<mapsto> Some ''Ann'',
                         ''entity_id'' \<mapsto> None]]
     = Inl AttributeError
   \<and> main default_config
         [[''entity_id'' \<mapsto> Some ''E1'', ''entity_type'' \<mapsto> Some ''Delegation'',
           ''team_name'' \<mapsto> Some ''Alpha'', ''institution_name'' \<mapsto> Some ''Uni'']]
         [[''entity_id'' \<mapsto> Some ''E1'', ''participant_id'' \<mapsto> Some ''P1'',
           ''name'' \<mapsto> Some ''Ann''],
          [''entity_id'' \<mapsto> Some ''E1'', ''participant_id'' \<mapsto> Some ''P2'',
           ''name'' \<mapsto> None]]
         \<lparr>files = [], console = []\<rparr>
     = Inl (AttributeError, \<lparr>files = [], console = [Line ''Loading data...'']\<rparr>)
   \<and> load_entities [[''entity_id'' \<mapsto> Some '' E1 '']]
     = Inr [(''E1'', \<lparr>entity_type = [], display_name = []\<rparr>)]
   \<and> load_participants [[''entity_id'' \<mapsto> Some ''E1'', ''name'' \<mapsto> Some '' Ann  ''],
                        [''entity_id'' \<mapsto> Some ''E1 '', ''participant_id'' \<mapsto> Some ''P2'']]
     = Inr [(''E1'', [\<lparr>participant_id = [], name = ''Ann''\<rparr>,
                      \<lparr>participant_id = ''P2'', name = []\<rparr>])]
   \<and> load_entities [[''entity_type'' \<mapsto> Some ''Delegation'']] = Inl KeyError
   \<and> load_participants [[''name'' \<mapsto> Some ''Ann'']] = Inl KeyError"
  by (simp add: load_entities_def load_participants_def entity_of_row_def
      participant_of_row_def row_item_def row_get_def strip_def is_space_def append_to_def
      main_def say_def)

end
